theory Spec2Isabelle
  imports Complex_Main "HOL-Library.Monad_Syntax" "HOL-Library.Log_Nat"
begin

section \<open>The optimization triangle (cpp-wasm/optimization\_triangle.cpp)\<close>

subsection \<open>Arithmetic on \<^verbatim>\<open>double\<close>\<close>

text \<open>
  The program computes with C++ \<^verbatim>\<open>double\<close>. A finite \<^verbatim>\<open>double\<close> is modelled by
  the real number it denotes, and every arithmetic operation of the source by the exact
  operation on reals followed by a rounding \<open>rnd\<close>, which every function of the
  embedding takes as its first argument. Two roundings are used:
  \<^item> \<open>exact\<close> rounds nothing: the program in exact arithmetic;
  \<^item> \<open>binary64\<close> rounds to the nearest number with a 53-bit significand, ties to even:
    IEEE 754 double precision, as WebAssembly's \<^verbatim>\<open>f64\<close> operations compute (each
    operation rounded on its own, nothing fused), with an unbounded exponent. It agrees
    with the machine as long as no result overflows or is subnormal; infinities and NaN
    are not part of the model.

  Comparisons, \<^verbatim>\<open>std::max\<close>, \<^verbatim>\<open>std::min\<close> and \<^verbatim>\<open>std::abs\<close> round nothing. A
  decimal literal of the source is the rounding of its decimal value (\<open>rnd 0.001\<close>); an
  \<^verbatim>\<open>int\<close> converts to \<^verbatim>\<open>double\<close> without rounding. A division is the one operation
  with no value for some finite operands, so it is fallible (\<open>fdiv\<close>): a function that
  divides returns an \<open>option\<close>, and \<open>None\<close> stands for a division by zero having
  happened.
\<close>

type_synonym rounding = "real \<Rightarrow> real"

definition exact :: rounding where
  "exact v = v"

definition pow2 :: "int \<Rightarrow> real" where
  "pow2 e = (if 0 \<le> e then 2 ^ nat e else 1 / 2 ^ nat (- e))"

text \<open>The nearest integer, a tie going to the even one.\<close>

definition round_half_even :: "real \<Rightarrow> int" where
  "round_half_even q =
     (let f = \<lfloor>q\<rfloor>; d = q - real_of_int f
      in if d < 1 / 2 then f else if 1 / 2 < d then f + 1 else if even f then f else f + 1)"

text \<open>For \<open>0 < v\<close>, an exponent \<open>e\<close> with \<open>2 ^ 52 \<le> v / 2 ^ e \<le> 2 ^ 53\<close>: the unit in
  the last place of a 53-bit significand for \<open>v\<close> is \<open>2 ^ e\<close>.\<close>

definition ulp_exponent :: "real \<Rightarrow> int" where
  "ulp_exponent v = (if 1 \<le> v then bitlen \<lfloor>v\<rfloor> - 53 else - bitlen \<lfloor>1 / v\<rfloor> - 52)"

definition round_pos :: "real \<Rightarrow> real" where
  "round_pos v =
     real_of_int (round_half_even (v / pow2 (ulp_exponent v))) * pow2 (ulp_exponent v)"

definition binary64 :: rounding where
  "binary64 v = (if v = 0 then 0 else if 0 < v then round_pos v else - round_pos (- v))"

definition fadd :: "rounding \<Rightarrow> real \<Rightarrow> real \<Rightarrow> real" where
  "fadd rnd a b = rnd (a + b)"

definition fsub :: "rounding \<Rightarrow> real \<Rightarrow> real \<Rightarrow> real" where
  "fsub rnd a b = rnd (a - b)"

definition fmul :: "rounding \<Rightarrow> real \<Rightarrow> real \<Rightarrow> real" where
  "fmul rnd a b = rnd (a * b)"

definition fdiv :: "rounding \<Rightarrow> real \<Rightarrow> real \<Rightarrow> real option" where
  "fdiv rnd a b = (if b = 0 then None else Some (rnd (a / b)))"

definition fsqrt :: "rounding \<Rightarrow> real \<Rightarrow> real" where
  "fsqrt rnd a = rnd (sqrt a)"

text \<open>\<^verbatim>\<open>std::max(a, b)\<close> is \<^verbatim>\<open>(a < b) ? b : a\<close> and \<^verbatim>\<open>std::min(a, b)\<close> is
  \<^verbatim>\<open>(b < a) ? b : a\<close>.\<close>

definition std_max :: "real \<Rightarrow> real \<Rightarrow> real" where
  "std_max a b = (if a < b then b else a)"

definition std_min :: "real \<Rightarrow> real \<Rightarrow> real" where
  "std_min a b = (if b < a then b else a)"

subsection \<open>Data\<close>

record Point2D =
  x :: real
  y :: real

record BarycentricCoord =
  performance :: real
  velocity :: real
  adaptability :: real

text \<open>The three private members of \<^verbatim>\<open>class Triangle\<close>; \<^verbatim>\<open>top\<close> is primed,
  the name being HOL's greatest element.\<close>

record Triangle =
  top' :: Point2D
  left :: Point2D
  right :: Point2D

subsection \<open>class Triangle\<close>

definition padding :: int where
  "padding = 80"

text \<open>The constructor. Its \<^verbatim>\<open>int\<close> arithmetic is modelled on unbounded integers: the
  only call of the program passes 700 and 550.\<close>

definition Triangle_new :: "rounding \<Rightarrow> int \<Rightarrow> int \<Rightarrow> Triangle" where
  "Triangle_new rnd canvasWidth canvasHeight =
     \<lparr> top' = \<lparr> x = rnd (real_of_int canvasWidth / 2), y = real_of_int padding \<rparr>,
       left = \<lparr> x = real_of_int padding, y = real_of_int (canvasHeight - padding) \<rparr>,
       right = \<lparr> x = real_of_int (canvasWidth - padding),
                 y = real_of_int (canvasHeight - padding) \<rparr> \<rparr>"

definition baryToCartesian :: "rounding \<Rightarrow> Triangle \<Rightarrow> BarycentricCoord \<Rightarrow> Point2D" where
  "baryToCartesian rnd T bc =
     \<lparr> x = fadd rnd (fadd rnd (fmul rnd (performance bc) (x (top' T)))
                              (fmul rnd (velocity bc) (x (left T))))
                    (fmul rnd (adaptability bc) (x (right T))),
       y = fadd rnd (fadd rnd (fmul rnd (performance bc) (y (top' T)))
                              (fmul rnd (velocity bc) (y (left T))))
                    (fmul rnd (adaptability bc) (y (right T))) \<rparr>"

definition signedArea :: "rounding \<Rightarrow> Point2D \<Rightarrow> Point2D \<Rightarrow> Point2D \<Rightarrow> real" where
  "signedArea rnd p1 p2 p3 =
     fsub rnd (fmul rnd (fsub rnd (x p1) (x p3)) (fsub rnd (y p2) (y p3)))
              (fmul rnd (fsub rnd (x p2) (x p3)) (fsub rnd (y p1) (y p3)))"

definition isInside :: "rounding \<Rightarrow> Triangle \<Rightarrow> Point2D \<Rightarrow> bool" where
  "isInside rnd T point =
     (let d1 = signedArea rnd point (top' T) (left T);
          d2 = signedArea rnd point (left T) (right T);
          d3 = signedArea rnd point (right T) (top' T);
          hasNeg = (d1 < 0 \<or> d2 < 0 \<or> d3 < 0);
          hasPos = (d1 > 0 \<or> d2 > 0 \<or> d3 > 0)
      in \<not> (hasNeg \<and> hasPos))"

definition projectPointOntoSegment ::
    "rounding \<Rightarrow> Point2D \<Rightarrow> Point2D \<Rightarrow> Point2D \<Rightarrow> Point2D option" where
  "projectPointOntoSegment rnd p a b =
     (let dx = fsub rnd (x b) (x a);
          dy = fsub rnd (y b) (y a);
          lengthSq = fadd rnd (fmul rnd dx dx) (fmul rnd dy dy)
      in if lengthSq < rnd 0.001 then Some a
         else do {
           t \<leftarrow> fdiv rnd (fadd rnd (fmul rnd (fsub rnd (x p) (x a)) dx)
                                   (fmul rnd (fsub rnd (y p) (y a)) dy)) lengthSq;
           let t = std_max 0 (std_min 1 t);
           Some \<lparr> x = fadd rnd (x a) (fmul rnd t dx), y = fadd rnd (y a) (fmul rnd t dy) \<rparr>
         })"

text \<open>The lambda \<^verbatim>\<open>distSq\<close> of \<^verbatim>\<open>clampToTriangle\<close>.\<close>

definition distSq :: "rounding \<Rightarrow> Point2D \<Rightarrow> Point2D \<Rightarrow> real" where
  "distSq rnd a b =
     (let dx = fsub rnd (x b) (x a); dy = fsub rnd (y b) (y a)
      in fadd rnd (fmul rnd dx dx) (fmul rnd dy dy))"

definition clampToTriangle :: "rounding \<Rightarrow> Triangle \<Rightarrow> Point2D \<Rightarrow> Point2D option" where
  "clampToTriangle rnd T point =
     (if isInside rnd T point then Some point
      else do {
        proj1 \<leftarrow> projectPointOntoSegment rnd point (top' T) (left T);
        proj2 \<leftarrow> projectPointOntoSegment rnd point (left T) (right T);
        proj3 \<leftarrow> projectPointOntoSegment rnd point (right T) (top' T);
        let d1 = distSq rnd point proj1;
        let d2 = distSq rnd point proj2;
        let d3 = distSq rnd point proj3;
        if d1 \<le> d2 \<and> d1 \<le> d3 then Some proj1
        else if d2 \<le> d3 then Some proj2
        else Some proj3
      })"

definition cartesianToBary ::
    "rounding \<Rightarrow> Triangle \<Rightarrow> Point2D \<Rightarrow> BarycentricCoord option" where
  "cartesianToBary rnd T point =
     do {
       clamped \<leftarrow> clampToTriangle rnd T point;
       let totalArea = signedArea rnd (top' T) (left T) (right T);
       let totalArea = (if \<bar>totalArea\<bar> < rnd 0.001 then 1 else totalArea);
       perf \<leftarrow> fdiv rnd (signedArea rnd clamped (left T) (right T)) totalArea;
       vel \<leftarrow> fdiv rnd (signedArea rnd clamped (right T) (top' T)) totalArea;
       adapt \<leftarrow> fdiv rnd (signedArea rnd clamped (top' T) (left T)) totalArea;
       Some \<lparr> performance = std_max 0 (std_min 1 perf),
              velocity = std_max 0 (std_min 1 vel),
              adaptability = std_max 0 (std_min 1 adapt) \<rparr>
     }"

subsection \<open>Global state and the exported functions\<close>

text \<open>The pointer \<^verbatim>\<open>triangle\<close> is \<open>None\<close> when null.\<close>

record state =
  triangle :: "Triangle option"
  dotPosition :: BarycentricCoord
  isDragging :: bool

definition CANVAS_WIDTH :: int where
  "CANVAS_WIDTH = 700"

definition CANVAS_HEIGHT :: int where
  "CANVAS_HEIGHT = 550"

text \<open>The values of the three globals when the module is loaded.\<close>

definition initial_state :: "rounding \<Rightarrow> state" where
  "initial_state rnd =
     \<lparr> triangle = None,
       dotPosition = \<lparr> performance = rnd 0.33, velocity = rnd 0.33, adaptability = rnd 0.34 \<rparr>,
       isDragging = False \<rparr>"

definition init :: "rounding \<Rightarrow> state \<Rightarrow> state" where
  "init rnd s = s\<lparr> triangle := Some (Triangle_new rnd CANVAS_WIDTH CANVAS_HEIGHT) \<rparr>"

definition cleanup :: "state \<Rightarrow> state" where
  "cleanup s = s\<lparr> triangle := None \<rparr>"

definition handleMouseDown :: "rounding \<Rightarrow> state \<Rightarrow> real \<Rightarrow> real \<Rightarrow> state option" where
  "handleMouseDown rnd s mouseX mouseY =
     (case triangle s of
        None \<Rightarrow> Some s
      | Some T \<Rightarrow>
          (let mousePos = \<lparr> x = mouseX, y = mouseY \<rparr>;
               dotPos = baryToCartesian rnd T (dotPosition s);
               dx = fsub rnd (x mousePos) (x dotPos);
               dy = fsub rnd (y mousePos) (y dotPos);
               distance = fsqrt rnd (fadd rnd (fmul rnd dx dx) (fmul rnd dy dy))
           in if distance < 15 then Some (s\<lparr> isDragging := True \<rparr>)
              else if isInside rnd T mousePos then do {
                bc \<leftarrow> cartesianToBary rnd T mousePos;
                Some (s\<lparr> dotPosition := bc, isDragging := True \<rparr>)
              }
              else Some s))"

definition handleMouseMove :: "rounding \<Rightarrow> state \<Rightarrow> real \<Rightarrow> real \<Rightarrow> state option" where
  "handleMouseMove rnd s mouseX mouseY =
     (case triangle s of
        None \<Rightarrow> Some s
      | Some T \<Rightarrow>
          if \<not> isDragging s then Some s
          else do {
            bc \<leftarrow> cartesianToBary rnd T \<lparr> x = mouseX, y = mouseY \<rparr>;
            Some (s\<lparr> dotPosition := bc \<rparr>)
          })"

definition handleMouseUp :: "state \<Rightarrow> state" where
  "handleMouseUp s = s\<lparr> isDragging := False \<rparr>"

definition getDotX :: "rounding \<Rightarrow> state \<Rightarrow> real" where
  "getDotX rnd s =
     (case triangle s of None \<Rightarrow> 0 | Some T \<Rightarrow> x (baryToCartesian rnd T (dotPosition s)))"

definition getDotY :: "rounding \<Rightarrow> state \<Rightarrow> real" where
  "getDotY rnd s =
     (case triangle s of None \<Rightarrow> 0 | Some T \<Rightarrow> y (baryToCartesian rnd T (dotPosition s)))"

definition getTriangleTopX :: "state \<Rightarrow> real" where
  "getTriangleTopX s = (case triangle s of None \<Rightarrow> 0 | Some T \<Rightarrow> x (top' T))"

definition getTriangleTopY :: "state \<Rightarrow> real" where
  "getTriangleTopY s = (case triangle s of None \<Rightarrow> 0 | Some T \<Rightarrow> y (top' T))"

definition getTriangleLeftX :: "state \<Rightarrow> real" where
  "getTriangleLeftX s = (case triangle s of None \<Rightarrow> 0 | Some T \<Rightarrow> x (left T))"

definition getTriangleLeftY :: "state \<Rightarrow> real" where
  "getTriangleLeftY s = (case triangle s of None \<Rightarrow> 0 | Some T \<Rightarrow> y (left T))"

definition getTriangleRightX :: "state \<Rightarrow> real" where
  "getTriangleRightX s = (case triangle s of None \<Rightarrow> 0 | Some T \<Rightarrow> x (right T))"

definition getTriangleRightY :: "state \<Rightarrow> real" where
  "getTriangleRightY s = (case triangle s of None \<Rightarrow> 0 | Some T \<Rightarrow> y (right T))"

definition getPerformance :: "state \<Rightarrow> real" where
  "getPerformance s = performance (dotPosition s)"

definition getVelocity :: "state \<Rightarrow> real" where
  "getVelocity s = velocity (dotPosition s)"

definition getAdaptability :: "state \<Rightarrow> real" where
  "getAdaptability s = adaptability (dotPosition s)"

subsection \<open>Sequences of calls\<close>

text \<open>A call of one of the five exported functions that change the state, and the state
  after a sequence of calls; \<open>None\<close> as soon as a call divides by zero.\<close>

datatype call =
  Init | Cleanup | MouseDown real real | MouseMove real real | MouseUp

fun exec :: "rounding \<Rightarrow> state \<Rightarrow> call \<Rightarrow> state option" where
  "exec rnd s Init = Some (init rnd s)"
| "exec rnd s Cleanup = Some (cleanup s)"
| "exec rnd s (MouseDown mouseX mouseY) = handleMouseDown rnd s mouseX mouseY"
| "exec rnd s (MouseMove mouseX mouseY) = handleMouseMove rnd s mouseX mouseY"
| "exec rnd s MouseUp = Some (handleMouseUp s)"

fun run :: "rounding \<Rightarrow> state \<Rightarrow> call list \<Rightarrow> state option" where
  "run rnd s [] = Some s"
| "run rnd s (c # cs) = (case exec rnd s c of None \<Rightarrow> None | Some s' \<Rightarrow> run rnd s' cs)"

subsection \<open>Notions of the specification\<close>

text \<open>The literal \<^verbatim>\<open>0.001\<close> of the two guards denotes a positive number.\<close>

definition epsilon_positive :: "rounding \<Rightarrow> bool" where
  "epsilon_positive rnd = (0 < rnd 0.001)"

text \<open>Each of the three weights lies in \<open>[0, 1]\<close>.\<close>

definition unit_bary :: "BarycentricCoord \<Rightarrow> bool" where
  "unit_bary bc =
     (0 \<le> performance bc \<and> performance bc \<le> 1 \<and>
      0 \<le> velocity bc \<and> velocity bc \<le> 1 \<and>
      0 \<le> adaptability bc \<and> adaptability bc \<le> 1)"

text \<open>The point \<open>q\<close> lies on the segment from \<open>a\<close> to \<open>b\<close>, in exact arithmetic: it is
  collinear with the end points and inside their bounding box.\<close>

definition on_segment :: "Point2D \<Rightarrow> Point2D \<Rightarrow> Point2D \<Rightarrow> bool" where
  "on_segment a b q =
     (signedArea exact q a b = 0 \<and>
      min (x a) (x b) \<le> x q \<and> x q \<le> max (x a) (x b) \<and>
      min (y a) (y b) \<le> y q \<and> y q \<le> max (y a) (y b))"

definition on_boundary :: "Triangle \<Rightarrow> Point2D \<Rightarrow> bool" where
  "on_boundary T q =
     (on_segment (top' T) (left T) q \<or> on_segment (left T) (right T) q \<or>
      on_segment (right T) (top' T) q)"

text \<open>The point at parameter \<open>t\<close> of the segment from \<open>a\<close> to \<open>b\<close>.\<close>

definition between :: "Point2D \<Rightarrow> Point2D \<Rightarrow> real \<Rightarrow> Point2D" where
  "between a b t = \<lparr> x = x a + t * (x b - x a), y = y a + t * (y b - y a) \<rparr>"

text \<open>The relative error of one rounding in double arithmetic is at most \<open>eps64\<close>.\<close>

definition eps64 :: real where
  "eps64 = 1 / 2 ^ 53"

text \<open>The triangle that \<^verbatim>\<open>init\<close> constructs, for the canvas of 700 by 550.\<close>

definition canvas_triangle :: Triangle where
  "canvas_triangle =
     \<lparr> top' = \<lparr> x = 350, y = 80 \<rparr>, left = \<lparr> x = 80, y = 470 \<rparr>,
       right = \<lparr> x = 620, y = 470 \<rparr> \<rparr>"

section \<open>Properties\<close>

subsection \<open>The two roundings\<close>

lemmas exact_arith = exact_def fadd_def fsub_def fmul_def fdiv_def fsqrt_def

lemma binary64_0: "binary64 0 = 0"
  by (simp add: binary64_def)

lemma binary64_epsilon: "0 < binary64 0.001"
  by code_simp

lemma binary64_marker:
  "binary64 (33 / 100) = 5944751508129055 / 18014398509481984"
  "binary64 (17 / 50) = 6124895493223875 / 18014398509481984"
  by code_simp+

lemma rounding_cases:
  assumes "rnd = exact \<or> rnd = binary64"
  shows "epsilon_positive rnd" and "rnd 0 = 0"
    and "0 \<le> rnd 0.33 \<and> rnd 0.33 \<le> 1" and "0 \<le> rnd 0.34 \<and> rnd 0.34 \<le> 1"
  using assms binary64_epsilon binary64_0
  by (auto simp: exact_def epsilon_positive_def binary64_marker)

text \<open>What \<open>binary64\<close> is: for \<open>0 < v\<close> it is a multiple \<open>m * 2 ^ e\<close> of the unit in
  the last place with \<open>2 ^ 52 \<le> m \<le> 2 ^ 53\<close>, at most half a unit away from \<open>v\<close>; so
  its relative error is at most \<open>2 ^ -53\<close>.\<close>

lemma pow2_powi: "pow2 e = 2 powi e"
  by (simp add: pow2_def power_int_def field_simps)

lemma pow2_pos: "0 < pow2 e"
  by (simp add: pow2_powi)

lemma pow2_add: "pow2 (a + b) = pow2 a * pow2 b"
  by (simp add: pow2_powi power_int_add)

lemma pow2_numeral: "pow2 52 = 2 ^ 52" "pow2 53 = 2 ^ 53"
  by (simp_all add: pow2_def)

lemma pow2_minus: "pow2 (- e) = 1 / pow2 e"
  by (simp add: pow2_powi power_int_minus field_simps)

lemma pow2_nat: "0 \<le> k \<Longrightarrow> pow2 k = 2 ^ nat k"
  by (simp add: pow2_def)

lemma bitlen_pow2_bounds:
  assumes "0 < n"
  shows "1 \<le> bitlen n"
    and "pow2 (bitlen n - 1) \<le> real_of_int n"
    and "real_of_int n + 1 \<le> pow2 (bitlen n)"
proof -
  from bitlen_bounds [OF assms]
  have kb: "2 ^ nat (bitlen n - 1) \<le> n" "n + 1 \<le> 2 ^ nat (bitlen n)"
    by simp_all
  show k1: "1 \<le> bitlen n"
    using assms bitlen_eq_zero_iff [of n] bitlen_nonneg [of n] by simp
  have "real_of_int (2 ^ nat (bitlen n - 1)) \<le> real_of_int n"
    using kb(1) by (rule of_int_le_iff [THEN iffD2])
  moreover have "real_of_int (2 ^ nat (bitlen n - 1)) = pow2 (bitlen n - 1)"
    using k1 by (simp add: pow2_nat)
  ultimately show "pow2 (bitlen n - 1) \<le> real_of_int n" by linarith
  have "real_of_int (n + 1) \<le> real_of_int (2 ^ nat (bitlen n))"
    using kb(2) by (rule of_int_le_iff [THEN iffD2])
  moreover have "real_of_int (2 ^ nat (bitlen n)) = pow2 (bitlen n)"
    using k1 by (simp add: pow2_nat)
  moreover have "real_of_int (n + 1) = real_of_int n + 1" by simp
  ultimately show "real_of_int n + 1 \<le> pow2 (bitlen n)" by linarith
qed

lemma round_half_even_error: "\<bar>real_of_int (round_half_even q) - q\<bar> \<le> 1 / 2"
proof -
  have "real_of_int \<lfloor>q\<rfloor> \<le> q" "q < real_of_int \<lfloor>q\<rfloor> + 1" by linarith+
  then show ?thesis
    by (auto simp: round_half_even_def Let_def abs_le_iff)
qed

lemma round_half_even_bounds:
  "\<lfloor>q\<rfloor> \<le> round_half_even q" "round_half_even q \<le> \<lceil>q\<rceil>"
proof -
  show "\<lfloor>q\<rfloor> \<le> round_half_even q"
    by (simp add: round_half_even_def Let_def)
  show "round_half_even q \<le> \<lceil>q\<rceil>"
  proof (cases "q = real_of_int \<lfloor>q\<rfloor>")
    case True
    then have "round_half_even q = \<lfloor>q\<rfloor>" by (simp add: round_half_even_def Let_def)
    then show ?thesis using floor_le_ceiling [of q] by simp
  next
    case False
    then have "\<lceil>q\<rceil> = \<lfloor>q\<rfloor> + 1" by (simp add: ceiling_altdef)
    then show ?thesis by (simp add: round_half_even_def Let_def)
  qed
qed

lemma ulp_exponent_scale:
  assumes "0 < v"
  shows "2 ^ 52 \<le> v / pow2 (ulp_exponent v)" and "v / pow2 (ulp_exponent v) \<le> 2 ^ 53"
proof -
  have "2 ^ 52 \<le> v / pow2 (ulp_exponent v) \<and> v / pow2 (ulp_exponent v) \<le> 2 ^ 53"
  proof (cases "1 \<le> v")
    case True
    define n where "n = \<lfloor>v\<rfloor>"
    define k where "k = bitlen n"
    have npos: "0 < n" using True by (simp add: n_def)
    have nv: "real_of_int n \<le> v" "v < real_of_int n + 1" by (simp_all add: n_def)
    have e: "ulp_exponent v = k - 53"
      using True by (simp add: ulp_exponent_def k_def n_def)
    have lo: "pow2 (k - 1) \<le> v"
      using bitlen_pow2_bounds(2) [OF npos] nv(1) by (simp add: k_def)
    have hi: "v \<le> pow2 k"
      using bitlen_pow2_bounds(3) [OF npos] nv(2) by (simp add: k_def)
    have "pow2 (k - 1) = pow2 52 * pow2 (k - 53)" "pow2 k = pow2 53 * pow2 (k - 53)"
      by (simp_all flip: pow2_add)
    with lo hi pow2_pos [of "k - 53"] show ?thesis
      by (simp add: e pow2_numeral field_simps)
  next
    case False
    define n where "n = \<lfloor>1 / v\<rfloor>"
    define k where "k = bitlen n"
    have iv: "1 < 1 / v" using False assms by simp
    have npos: "0 < n" using iv by (simp add: n_def)
    have nv: "real_of_int n \<le> 1 / v" "1 / v < real_of_int n + 1" by (simp_all add: n_def)
    have e: "ulp_exponent v = - k - 52"
      using False by (simp add: ulp_exponent_def k_def n_def)
    have lo: "pow2 (k - 1) \<le> 1 / v"
      using bitlen_pow2_bounds(2) [OF npos] nv(1) by (simp add: k_def)
    have hi: "1 / v \<le> pow2 k"
      using bitlen_pow2_bounds(3) [OF npos] nv(2) by (simp add: k_def)
    have s: "1 / pow2 (- k - 52) = pow2 52 * pow2 k" "1 / pow2 (- k - 52) = pow2 53 * pow2 (k - 1)"
      by (simp_all flip: pow2_add pow2_minus)
    have "v * pow2 k \<ge> 1" using hi assms pow2_pos [of k] by (simp add: field_simps)
    moreover have "v * pow2 (k - 1) \<le> 1" using lo assms pow2_pos [of "k - 1"] by (simp add: field_simps)
    ultimately have b: "2 ^ 52 \<le> v * (pow2 52 * pow2 k)"
        "v * (pow2 53 * pow2 (k - 1)) \<le> 2 ^ 53"
      by (simp_all add: pow2_numeral)
    have d: "v / pow2 (- k - 52) = v * (1 / pow2 (- k - 52))" by simp
    have "v / pow2 (- k - 52) = v * (pow2 52 * pow2 k)" unfolding d s(1) ..
    moreover have "v / pow2 (- k - 52) = v * (pow2 53 * pow2 (k - 1))" unfolding d s(2) ..
    ultimately show ?thesis
      unfolding e using b by metis
  qed
  then show "2 ^ 52 \<le> v / pow2 (ulp_exponent v)" and "v / pow2 (ulp_exponent v) \<le> 2 ^ 53"
    by simp_all
qed

lemma round_pos_error:
  assumes "0 < v"
  shows "\<bar>round_pos v - v\<bar> \<le> pow2 (ulp_exponent v) / 2"
    and "pow2 (ulp_exponent v) \<le> v / 2 ^ 52"
proof -
  let ?e = "ulp_exponent v"
  have p: "0 < pow2 ?e" by (rule pow2_pos)
  have "round_pos v - v = (real_of_int (round_half_even (v / pow2 ?e)) - v / pow2 ?e) * pow2 ?e"
    using p by (simp add: round_pos_def field_simps)
  then have "\<bar>round_pos v - v\<bar> = \<bar>real_of_int (round_half_even (v / pow2 ?e)) - v / pow2 ?e\<bar> * pow2 ?e"
    using p by (simp add: abs_mult)
  also have "\<dots> \<le> 1 / 2 * pow2 ?e"
    using round_half_even_error [of "v / pow2 ?e"] p by (intro mult_right_mono) simp_all
  finally show "\<bar>round_pos v - v\<bar> \<le> pow2 ?e / 2" by simp
  show "pow2 ?e \<le> v / 2 ^ 52"
    using ulp_exponent_scale(1) [OF assms] p by (simp add: field_simps)
qed

lemma round_pos_significand:
  assumes "0 < v"
  shows "\<exists>m. round_pos v = real_of_int m * pow2 (ulp_exponent v) \<and> 2 ^ 52 \<le> m \<and> m \<le> 2 ^ 53"
proof -
  let ?q = "v / pow2 (ulp_exponent v)"
  have "(2::int) ^ 52 \<le> \<lfloor>?q\<rfloor>"
    using ulp_exponent_scale(1) [OF assms] by (simp add: le_floor_iff)
  moreover have "\<lceil>?q\<rceil> \<le> (2::int) ^ 53"
    using ulp_exponent_scale(2) [OF assms] by (simp add: ceiling_le_iff)
  ultimately have "2 ^ 52 \<le> round_half_even ?q" "round_half_even ?q \<le> 2 ^ 53"
    using round_half_even_bounds [of ?q] by linarith+
  then show ?thesis by (auto simp: round_pos_def)
qed

lemma binary64_error: "\<bar>binary64 v - v\<bar> \<le> \<bar>v\<bar> / 2 ^ 53"
proof -
  have pos: "\<bar>round_pos w - w\<bar> \<le> w / 2 ^ 53" if "0 < w" for w
    using round_pos_error [OF that] by simp
  consider "v = 0" | "0 < v" | "v < 0" by linarith
  then show ?thesis
  proof cases
    case 1
    then show ?thesis by (simp add: binary64_def)
  next
    case 2
    with pos [of v] show ?thesis by (simp add: binary64_def)
  next
    case 3
    with pos [of "- v"] show ?thesis by (simp add: binary64_def)
  qed
qed

lemma binary64_examples:
  "binary64 350 = 350"
  "binary64 (1 / 3) = 6004799503160661 / 18014398509481984"
  "binary64 (1 / 10) = 3602879701896397 / 36028797018963968"
  "binary64 (- (1 / 10)) = - (3602879701896397 / 36028797018963968)"
  "binary64 9007199254740993 = 9007199254740992"
  "binary64 9007199254740995 = 9007199254740996"
  by code_simp+

text \<open>A rounded square root of at least 256 is not below the grab radius 15.\<close>

lemma fsqrt_far:
  assumes "rnd = exact \<or> rnd = binary64" and "256 \<le> v"
  shows "\<not> fsqrt rnd v < 15"
proof -
  have "sqrt 256 \<le> sqrt v" using assms(2) by (simp only: real_sqrt_le_iff)
  moreover have "sqrt 256 = 16" using real_sqrt_abs [of 16] by simp
  ultimately have s: "16 \<le> sqrt v" by simp
  have "\<bar>binary64 (sqrt v) - sqrt v\<bar> \<le> sqrt v / 9007199254740992"
    using binary64_error [of "sqrt v"] s by simp
  with s have "15 \<le> binary64 (sqrt v)" by linarith
  with s assms(1) have "15 \<le> fsqrt rnd v"
    by (auto simp: fsqrt_def exact_def)
  then show ?thesis by simp
qed

subsection \<open>Clamping to the unit interval, and divisions\<close>

lemma std_clamp_unit: "0 \<le> std_max 0 (std_min 1 t) \<and> std_max 0 (std_min 1 t) \<le> 1"
  by (simp add: std_max_def std_min_def)

lemma std_clamp_id: "0 \<le> t \<Longrightarrow> t \<le> 1 \<Longrightarrow> std_max 0 (std_min 1 t) = t"
  by (simp add: std_max_def std_min_def)

lemma projectPointOntoSegment_total:
  assumes "epsilon_positive rnd"
  shows "\<exists>q. projectPointOntoSegment rnd p a b = Some q"
  using assms by (auto simp: projectPointOntoSegment_def Let_def fdiv_def epsilon_positive_def)

lemma clampToTriangle_outside:
  assumes "\<not> isInside rnd T p"
    and "projectPointOntoSegment rnd p (top' T) (left T) = Some q1"
    and "projectPointOntoSegment rnd p (left T) (right T) = Some q2"
    and "projectPointOntoSegment rnd p (right T) (top' T) = Some q3"
  shows "clampToTriangle rnd T p =
     Some (if distSq rnd p q1 \<le> distSq rnd p q2 \<and> distSq rnd p q1 \<le> distSq rnd p q3 then q1
           else if distSq rnd p q2 \<le> distSq rnd p q3 then q2 else q3)"
  using assms by (simp add: clampToTriangle_def Let_def)

lemma clampToTriangle_total:
  assumes "epsilon_positive rnd"
  shows "\<exists>q. clampToTriangle rnd T p = Some q"
proof (cases "isInside rnd T p")
  case True
  then show ?thesis by (simp add: clampToTriangle_def)
next
  case False
  obtain q1 where q1: "projectPointOntoSegment rnd p (top' T) (left T) = Some q1"
    using projectPointOntoSegment_total [OF assms] by blast
  obtain q2 where q2: "projectPointOntoSegment rnd p (left T) (right T) = Some q2"
    using projectPointOntoSegment_total [OF assms] by blast
  obtain q3 where q3: "projectPointOntoSegment rnd p (right T) (top' T) = Some q3"
    using projectPointOntoSegment_total [OF assms] by blast
  show ?thesis using clampToTriangle_outside [OF False q1 q2 q3] by simp
qed

lemma cartesianToBary_unit:
  assumes "epsilon_positive rnd"
  shows "\<exists>bc. cartesianToBary rnd T p = Some bc \<and> unit_bary bc"
proof -
  obtain q where q: "clampToTriangle rnd T p = Some q"
    using clampToTriangle_total [OF assms] by blast
  show ?thesis using q assms
    by (auto simp: cartesianToBary_def Let_def fdiv_def unit_bary_def std_clamp_unit
        epsilon_positive_def)
qed


subsection \<open>Segments and the boundary, in exact arithmetic\<close>

lemma signedArea_exact:
  "signedArea exact p1 p2 p3 =
     (x p1 - x p3) * (y p2 - y p3) - (x p2 - x p3) * (y p1 - y p3)"
  by (simp add: signedArea_def exact_arith)

lemma between_on_segment:
  assumes "0 \<le> t" "t \<le> 1"
  shows "on_segment a b (between a b t)"
proof -
  have area: "signedArea exact (between a b t) a b = 0"
    by (simp add: signedArea_exact between_def algebra_simps)
  have box: "min u v \<le> u + t * (v - u) \<and> u + t * (v - u) \<le> max u v" for u v :: real
  proof (cases "u \<le> v")
    case True
    then have "0 \<le> t * (v - u)" "t * (v - u) \<le> 1 * (v - u)"
      using assms mult_right_mono [of t 1 "v - u"] by simp_all
    with True show ?thesis by (simp add: min_def max_def)
  next
    case False
    then have "0 \<le> t * (u - v)" "t * (u - v) \<le> 1 * (u - v)"
      using assms mult_right_mono [of t 1 "u - v"] by simp_all
    with False show ?thesis by (simp add: min_def max_def algebra_simps)
  qed
  show ?thesis
    using area box [of "x a" "x b"] box [of "y a" "y b"]
    by (simp add: on_segment_def) (simp add: between_def)
qed

lemma on_segment_between:
  assumes "on_segment a b q"
  shows "\<exists>t. 0 \<le> t \<and> t \<le> 1 \<and> q = between a b t"
proof -
  have area: "(x q - x b) * (y a - y b) = (x a - x b) * (y q - y b)"
    using assms by (simp add: on_segment_def signedArea_exact)
  have bx: "min (x a) (x b) \<le> x q" "x q \<le> max (x a) (x b)"
    and by': "min (y a) (y b) \<le> y q" "y q \<le> max (y a) (y b)"
    using assms by (simp_all add: on_segment_def)
  consider (X) "x a \<noteq> x b" | (Y) "x a = x b" "y a \<noteq> y b" | (P) "x a = x b" "y a = y b"
    by blast
  then show ?thesis
  proof cases
    case X
    define t where "t = (x q - x a) / (x b - x a)"
    have t01: "0 \<le> t \<and> t \<le> 1"
      using X bx unfolding t_def
      by (cases "x a < x b") (simp_all add: min_def max_def field_simps)
    have qx: "x q = x a + t * (x b - x a)"
      using X by (simp add: t_def)
    have "(y q - y a) * (x b - x a) = (x q - x a) * (y b - y a)"
      using area by (simp add: algebra_simps)
    then have "y q - y a = t * (y b - y a)"
      using X by (simp add: t_def field_simps)
    then have qy: "y q = y a + t * (y b - y a)" by simp
    have "q = between a b t"
      using qx qy by (simp add: between_def)
    with t01 show ?thesis by blast
  next
    case Y
    define t where "t = (y q - y a) / (y b - y a)"
    have t01: "0 \<le> t \<and> t \<le> 1"
      using Y by' unfolding t_def
      by (cases "y a < y b") (simp_all add: min_def max_def field_simps)
    have qy: "y q = y a + t * (y b - y a)"
      using Y by (simp add: t_def)
    have "x q = x a" using Y bx by simp
    then have qx: "x q = x a + t * (x b - x a)" using Y by simp
    have "q = between a b t"
      using qx qy by (simp add: between_def)
    with t01 show ?thesis by blast
  next
    case P
    have "x q = x a" "y q = y a" using P bx by' by simp_all
    then have "q = between a b 0" by (simp add: between_def)
    then show ?thesis by (intro exI [of _ 0]) simp
  qed
qed

lemma signedArea_between:
  "signedArea exact (between a b t) a b = 0"
  "signedArea exact (between a b t) b c = (1 - t) * signedArea exact a b c"
  "signedArea exact (between a b t) c a = t * signedArea exact a b c"
  by (simp_all add: signedArea_exact between_def algebra_simps)

lemma same_sign:
  fixes A t :: real
  assumes "0 \<le> t" "t \<le> 1"
  shows "(0 \<le> (1 - t) * A \<and> 0 \<le> t * A) \<or> ((1 - t) * A \<le> 0 \<and> t * A \<le> 0)"
proof (cases "0 \<le> A")
  case True
  with assms show ?thesis by simp
next
  case False
  with assms show ?thesis by (simp add: mult_nonneg_nonpos)
qed

lemma between_inside:
  assumes "0 \<le> t" "t \<le> 1"
  shows "isInside exact T (between (top' T) (left T) t)"
    and "isInside exact T (between (left T) (right T) t)"
    and "isInside exact T (between (right T) (top' T) t)"
proof -
  show "isInside exact T (between (top' T) (left T) t)"
    using same_sign [OF assms, of "signedArea exact (top' T) (left T) (right T)"]
    by (simp add: isInside_def Let_def signedArea_between) linarith
  show "isInside exact T (between (left T) (right T) t)"
    using same_sign [OF assms, of "signedArea exact (left T) (right T) (top' T)"]
    by (simp add: isInside_def Let_def signedArea_between) linarith
  show "isInside exact T (between (right T) (top' T) t)"
    using same_sign [OF assms, of "signedArea exact (right T) (top' T) (left T)"]
    by (simp add: isInside_def Let_def signedArea_between) linarith
qed

lemma on_boundary_inside:
  assumes "on_boundary T q"
  shows "isInside exact T q"
  using assms unfolding on_boundary_def
  by (auto dest!: on_segment_between simp: between_inside)

lemma projectPointOntoSegment_between:
  assumes "projectPointOntoSegment exact p a b = Some q"
  shows "\<exists>t. 0 \<le> t \<and> t \<le> 1 \<and> q = between a b t"
proof (cases "(x b - x a) * (x b - x a) + (y b - y a) * (y b - y a) < 0.001")
  case True
  with assms have "q = between a b 0"
    by (simp add: projectPointOntoSegment_def Let_def between_def exact_arith)
  then show ?thesis by (intro exI [of _ 0]) simp
next
  case False
  define t where "t = std_max 0 (std_min 1
     (((x p - x a) * (x b - x a) + (y p - y a) * (y b - y a)) /
      ((x b - x a) * (x b - x a) + (y b - y a) * (y b - y a))))"
  have "0 \<le> t \<and> t \<le> 1" unfolding t_def by (rule std_clamp_unit)
  moreover have "q = between a b t"
    using assms False
    by (auto simp: projectPointOntoSegment_def Let_def exact_arith between_def t_def
        split: if_splits)
  ultimately show ?thesis by blast
qed

lemma vertex_on_segment: "on_segment a b a" "on_segment a b b"
  by (simp_all add: on_segment_def signedArea_exact)

text \<open>A signed area with a repeated point is zero under every rounding that keeps zero.\<close>

lemma signedArea_repeated:
  assumes "rnd 0 = 0"
  shows "signedArea rnd a a b = 0" and "signedArea rnd a b a = 0"
  using assms by (simp_all add: signedArea_def fsub_def fmul_def)

lemma vertices_inside:
  assumes "rnd 0 = 0"
  shows "isInside rnd T (top' T)" "isInside rnd T (left T)" "isInside rnd T (right T)"
  by (auto simp: isInside_def Let_def signedArea_repeated [of rnd, OF assms])

subsection \<open>The canvas triangle: evaluations\<close>

lemma Triangle_700_550:
  assumes "rnd = exact \<or> rnd = binary64"
  shows "Triangle_new rnd CANVAS_WIDTH CANVAS_HEIGHT = canvas_triangle"
  using assms binary64_examples(1)
  by (auto simp: Triangle_new_def CANVAS_WIDTH_def CANVAS_HEIGHT_def padding_def exact_def
      canvas_triangle_def)

lemma top_inside:
  assumes "rnd = exact \<or> rnd = binary64"
  shows "isInside rnd canvas_triangle \<lparr> x = 350, y = 80 \<rparr>"
  using vertices_inside(1) [of rnd canvas_triangle] rounding_cases(2) [OF assms]
  by (simp add: canvas_triangle_def)

lemma top_bary:
  "cartesianToBary binary64 canvas_triangle \<lparr> x = 350, y = 80 \<rparr> =
     Some \<lparr> performance = 1, velocity = 0, adaptability = 0 \<rparr>"
  "cartesianToBary exact canvas_triangle \<lparr> x = 350, y = 80 \<rparr> =
     Some \<lparr> performance = 1, velocity = 0, adaptability = 0 \<rparr>"
  by code_simp+

lemma top_cartesian:
  "baryToCartesian binary64 canvas_triangle \<lparr> performance = 1, velocity = 0, adaptability = 0 \<rparr>
     = \<lparr> x = 350, y = 80 \<rparr>"
  "baryToCartesian exact canvas_triangle \<lparr> performance = 1, velocity = 0, adaptability = 0 \<rparr>
     = \<lparr> x = 350, y = 80 \<rparr>"
  by code_simp+

lemma marker_start_binary64:
  "baryToCartesian binary64 canvas_triangle
     \<lparr> performance = 5944751508129055 / 18014398509481984,
       velocity = 5944751508129055 / 18014398509481984,
       adaptability = 6124895493223875 / 18014398509481984 \<rparr> =
   \<lparr> x = 1551191004466381 / 4398046511104, y = 6004213096959181 / 17592186044416 \<rparr>"
  by code_simp

lemma marker_start_exact:
  "baryToCartesian exact canvas_triangle
     \<lparr> performance = 33 / 100, velocity = 33 / 100, adaptability = 17 / 50 \<rparr> =
   \<lparr> x = 3527 / 10, y = 3413 / 10 \<rparr>"
  by code_simp

lemma top_far_binary64:
  "256 \<le> fadd binary64
     (fmul binary64 (fsub binary64 350 (1551191004466381 / 4398046511104))
                    (fsub binary64 350 (1551191004466381 / 4398046511104)))
     (fmul binary64 (fsub binary64 80 (6004213096959181 / 17592186044416))
                    (fsub binary64 80 (6004213096959181 / 17592186044416)))"
  by code_simp

lemma top_far_exact:
  "256 \<le> fadd exact (fmul exact (fsub exact 350 (3527 / 10)) (fsub exact 350 (3527 / 10)))
                      (fmul exact (fsub exact 80 (3413 / 10)) (fsub exact 80 (3413 / 10)))"
  by code_simp


lemma outside_100:
  "\<not> isInside binary64 canvas_triangle \<lparr> x = 100, y = 100 \<rparr>"
  "\<not> isInside exact canvas_triangle \<lparr> x = 100, y = 100 \<rparr>"
  by code_simp+

lemma clamp_100_binary64:
  "clampToTriangle binary64 canvas_triangle \<lparr> x = 100, y = 100 \<rparr> =
     Some \<lparr> x = 2283817592286085 / 8796093022208, y = 7407014012140913 / 35184372088832 \<rparr>"
  by code_simp

lemma clamp_100_exact:
  "clampToTriangle exact canvas_triangle \<lparr> x = 100, y = 100 \<rparr> =
     Some \<lparr> x = 6491 / 25, y = 5263 / 25 \<rparr>"
  by code_simp

lemma clamped_100_areas:
  "signedArea binary64
     \<lparr> x = 2283817592286085 / 8796093022208, y = 7407014012140913 / 35184372088832 \<rparr>
     (top' canvas_triangle) (left canvas_triangle) = 1 / 68719476736"
  "signedArea binary64
     \<lparr> x = 2283817592286085 / 8796093022208, y = 7407014012140913 / 35184372088832 \<rparr>
     (left canvas_triangle) (right canvas_triangle) = - (2407229526166733 / 17179869184)"
  by code_simp+


text \<open>The triangle of a canvas of 200 by 300, in double arithmetic.\<close>

lemma Triangle_200_300:
  "Triangle_new binary64 200 300 =
     \<lparr> top' = \<lparr> x = 100, y = 80 \<rparr>, left = \<lparr> x = 80, y = 220 \<rparr>,
       right = \<lparr> x = 120, y = 220 \<rparr> \<rparr>"
  by code_simp

subsection \<open>The handlers\<close>

lemma handleMouseDown_place:
  assumes "rnd = exact \<or> rnd = binary64"
    and "triangle s = Some T"
    and "baryToCartesian rnd T (dotPosition s) = dotPos"
    and "256 \<le> fadd rnd (fmul rnd (fsub rnd mouseX (x dotPos)) (fsub rnd mouseX (x dotPos)))
                         (fmul rnd (fsub rnd mouseY (y dotPos)) (fsub rnd mouseY (y dotPos)))"
    and "isInside rnd T \<lparr> x = mouseX, y = mouseY \<rparr>"
    and "cartesianToBary rnd T \<lparr> x = mouseX, y = mouseY \<rparr> = Some bc"
  shows "handleMouseDown rnd s mouseX mouseY = Some (s\<lparr> dotPosition := bc, isDragging := True \<rparr>)"
  using assms(2,3,5,6) fsqrt_far [OF assms(1,4)]
  by (simp add: handleMouseDown_def Let_def)

lemma down_at_top:
  assumes "rnd = exact \<or> rnd = binary64"
  shows "handleMouseDown rnd (init rnd (initial_state rnd)) 350 80 =
     Some \<lparr> triangle = Some canvas_triangle,
            dotPosition = \<lparr> performance = 1, velocity = 0, adaptability = 0 \<rparr>,
            isDragging = True \<rparr>"
  using assms
proof
  assume r: "rnd = exact"
  have "handleMouseDown exact (init exact (initial_state exact)) 350 80 =
      Some ((init exact (initial_state exact))
        \<lparr> dotPosition := \<lparr> performance = 1, velocity = 0, adaptability = 0 \<rparr>,
          isDragging := True \<rparr>)"
  proof (rule handleMouseDown_place)
    show "triangle (init exact (initial_state exact)) = Some canvas_triangle"
      by (simp add: init_def Triangle_700_550)
    show "baryToCartesian exact canvas_triangle (dotPosition (init exact (initial_state exact)))
        = \<lparr> x = 3527 / 10, y = 3413 / 10 \<rparr>"
      using marker_start_exact by (simp add: init_def initial_state_def exact_def)
    show "256 \<le> fadd exact
        (fmul exact (fsub exact 350 (x \<lparr> x = 3527 / 10, y = 3413 / 10 \<rparr>))
                    (fsub exact 350 (x \<lparr> x = 3527 / 10, y = 3413 / 10 \<rparr>)))
        (fmul exact (fsub exact 80 (y \<lparr> x = 3527 / 10, y = 3413 / 10 \<rparr>))
                    (fsub exact 80 (y \<lparr> x = 3527 / 10, y = 3413 / 10 \<rparr>)))"
      using top_far_exact by simp
  qed (simp_all add: top_inside top_bary)
  then show ?thesis
    by (simp add: r init_def initial_state_def Triangle_700_550)
next
  assume r: "rnd = binary64"
  have "handleMouseDown binary64 (init binary64 (initial_state binary64)) 350 80 =
      Some ((init binary64 (initial_state binary64))
        \<lparr> dotPosition := \<lparr> performance = 1, velocity = 0, adaptability = 0 \<rparr>,
          isDragging := True \<rparr>)"
  proof (rule handleMouseDown_place)
    show "triangle (init binary64 (initial_state binary64)) = Some canvas_triangle"
      by (simp add: init_def Triangle_700_550)
    show "baryToCartesian binary64 canvas_triangle
        (dotPosition (init binary64 (initial_state binary64)))
        = \<lparr> x = 1551191004466381 / 4398046511104, y = 6004213096959181 / 17592186044416 \<rparr>"
      using marker_start_binary64 by (simp add: init_def initial_state_def binary64_marker)
    show "256 \<le> fadd binary64
        (fmul binary64 (fsub binary64 350 (x \<lparr> x = 1551191004466381 / 4398046511104, y = 6004213096959181 / 17592186044416 \<rparr>))
                    (fsub binary64 350 (x \<lparr> x = 1551191004466381 / 4398046511104, y = 6004213096959181 / 17592186044416 \<rparr>)))
        (fmul binary64 (fsub binary64 80 (y \<lparr> x = 1551191004466381 / 4398046511104, y = 6004213096959181 / 17592186044416 \<rparr>))
                    (fsub binary64 80 (y \<lparr> x = 1551191004466381 / 4398046511104, y = 6004213096959181 / 17592186044416 \<rparr>)))"
      using top_far_binary64 by simp
  qed (simp_all add: top_inside top_bary)
  then show ?thesis
    by (simp add: r init_def initial_state_def Triangle_700_550)
qed

lemma exec_inv:
  assumes "epsilon_positive rnd" and "unit_bary (dotPosition s)"
  shows "\<exists>s'. exec rnd s c = Some s' \<and> unit_bary (dotPosition s')"
proof (cases c)
  case (MouseDown mx my)
  show ?thesis
  proof (cases "triangle s")
    case None
    with MouseDown assms show ?thesis by (simp add: handleMouseDown_def)
  next
    case (Some T)
    obtain bc where "cartesianToBary rnd T \<lparr>x = mx, y = my\<rparr> = Some bc" "unit_bary bc"
      using cartesianToBary_unit [OF assms(1)] by blast
    with MouseDown Some assms show ?thesis
      by (simp add: handleMouseDown_def Let_def)
  qed
next
  case (MouseMove mx my)
  show ?thesis
  proof (cases "triangle s")
    case None
    with MouseMove assms show ?thesis by (simp add: handleMouseMove_def)
  next
    case (Some T)
    obtain bc where "cartesianToBary rnd T \<lparr>x = mx, y = my\<rparr> = Some bc" "unit_bary bc"
      using cartesianToBary_unit [OF assms(1)] by blast
    with MouseMove Some assms show ?thesis
      by (simp add: handleMouseMove_def Let_def)
  qed
qed (use assms in \<open>simp_all add: init_def cleanup_def handleMouseUp_def\<close>)

lemma run_inv:
  assumes "epsilon_positive rnd"
  shows "unit_bary (dotPosition s) \<Longrightarrow>
    \<exists>s'. run rnd s cs = Some s' \<and> unit_bary (dotPosition s')"
proof (induction cs arbitrary: s)
  case Nil
  then show ?case by simp
next
  case (Cons c cs)
  from exec_inv [OF assms Cons.prems] obtain s1 where
    s1: "exec rnd s c = Some s1" "unit_bary (dotPosition s1)" by blast
  from Cons.IH [OF s1(2)] s1(1) show ?case by simp
qed

subsection \<open>The round trip of the marker\<close>

text \<open>In exact arithmetic the round trip is the identity.\<close>

lemma bary_roundtrip_exact:
  assumes "unit_bary bc"
    and "performance bc + velocity bc + adaptability bc = 1"
  shows "cartesianToBary exact (Triangle_new exact CANVAS_WIDTH CANVAS_HEIGHT)
           (baryToCartesian exact (Triangle_new exact CANVAS_WIDTH CANVAS_HEIGHT) bc) = Some bc"
proof -
  let ?T = "Triangle_new exact CANVAS_WIDTH CANVAS_HEIGHT"
  let ?P = "baryToCartesian exact ?T bc"
  have T: "?T = \<lparr> top' = \<lparr> x = 350, y = 80 \<rparr>, left = \<lparr> x = 80, y = 470 \<rparr>,
      right = \<lparr> x = 620, y = 470 \<rparr> \<rparr>"
    unfolding canvas_triangle_def [symmetric] by (rule Triangle_700_550) simp
  have a: "adaptability bc = 1 - performance bc - velocity bc"
    using assms(2) by simp
  have areas:
    "signedArea exact ?P (left ?T) (right ?T) = - 210600 * performance bc"
    "signedArea exact ?P (right ?T) (top' ?T) = - 210600 * velocity bc"
    "signedArea exact ?P (top' ?T) (left ?T) = - 210600 * adaptability bc"
    "signedArea exact (top' ?T) (left ?T) (right ?T) = - 210600"
    by (simp_all add: T baryToCartesian_def signedArea_exact exact_arith a algebra_simps)
  have inside: "isInside exact ?T ?P"
    using assms(1) by (simp add: isInside_def Let_def areas unit_bary_def)
  have clamp: "clampToTriangle exact ?T ?P = Some ?P"
    using inside by (simp add: clampToTriangle_def)
  have "cartesianToBary exact ?T ?P =
      Some \<lparr> performance = std_max 0 (std_min 1 (performance bc)),
             velocity = std_max 0 (std_min 1 (velocity bc)),
             adaptability = std_max 0 (std_min 1 (adaptability bc)) \<rparr>"
    by (simp add: cartesianToBary_def clamp areas exact_arith)
  also have "\<dots> = Some bc"
    using assms(1) by (simp add: std_clamp_id unit_bary_def)
  finally show ?thesis .
qed

text \<open>
  In double arithmetic every operation is within its relative error \<open>eps64\<close> of the exact
  one. The computed marker is within \<open>4096 * eps64\<close> of the exact marker; if
  \<^verbatim>\<open>isInside\<close> is false for it, one of the computed signed areas is positive, so the
  exact marker is within rounding error of that edge, the projection onto that edge is within
  \<open>12 / 10 ^ 12\<close> of the computed marker, and the projection that \<^verbatim>\<open>clampToTriangle\<close>
  selects, whose computed squared distance is no larger, is within \<open>17 / 10 ^ 12\<close>. The three
  weights of a point within \<open>k\<close> of the exact marker are within \<open>k / 195 + 22 * eps64\<close> of
  the weights of the marker.
\<close>

lemma eps64_bounds: "0 < eps64" "eps64 \<le> 12 / 100000000000000000"
  by (simp_all add: eps64_def)

lemma binary64_within:
  assumes "- M \<le> z" "z \<le> M"
  shows "z - M * eps64 \<le> binary64 z" and "binary64 z \<le> z + M * eps64"
proof -
  have "\<bar>z\<bar> \<le> M" using assms by (simp add: abs_le_iff)
  then have "\<bar>z\<bar> / 2 ^ 53 \<le> M / 2 ^ 53" by (simp add: divide_right_mono)
  with binary64_error [of z] have "\<bar>binary64 z - z\<bar> \<le> M * eps64"
    by (simp add: eps64_def)
  then show "z - M * eps64 \<le> binary64 z" and "binary64 z \<le> z + M * eps64"
    by (simp_all add: abs_le_iff)
qed

lemma fadd_within:
  assumes "- M \<le> a + b" "a + b \<le> M"
  shows "a + b - M * eps64 \<le> fadd binary64 a b" and "fadd binary64 a b \<le> a + b + M * eps64"
  unfolding fadd_def using assms by (rule binary64_within)+

lemma fsub_within:
  assumes "- M \<le> a - b" "a - b \<le> M"
  shows "a - b - M * eps64 \<le> fsub binary64 a b" and "fsub binary64 a b \<le> a - b + M * eps64"
  unfolding fsub_def using assms by (rule binary64_within)+

lemma fmul_within:
  assumes "- M \<le> a * b" "a * b \<le> M"
  shows "a * b - M * eps64 \<le> fmul binary64 a b" and "fmul binary64 a b \<le> a * b + M * eps64"
  unfolding fmul_def using assms by (rule binary64_within)+

text \<open>The marker, as \<^verbatim>\<open>baryToCartesian\<close> computes it in double arithmetic, is within
  \<open>4096 * eps64\<close> of the exact one.\<close>

lemma weighted_sum_within:
  assumes "0 \<le> p" "0 \<le> v" "0 \<le> a" "p + v + a = 1"
    and "0 \<le> c1" "c1 \<le> 620" "0 \<le> c2" "c2 \<le> 620" "0 \<le> c3" "c3 \<le> 620"
  shows "p * c1 + v * c2 + a * c3 - 4096 * eps64 \<le>
      fadd binary64 (fadd binary64 (fmul binary64 p c1) (fmul binary64 v c2)) (fmul binary64 a c3)"
    and "fadd binary64 (fadd binary64 (fmul binary64 p c1) (fmul binary64 v c2)) (fmul binary64 a c3)
      \<le> p * c1 + v * c2 + a * c3 + 4096 * eps64"
proof -
  note e = eps64_bounds
  have b1: "0 \<le> p * c1" "p * c1 \<le> p * 620"
    using assms by (simp_all add: mult_left_mono)
  have b2: "0 \<le> v * c2" "v * c2 \<le> v * 620"
    using assms by (simp_all add: mult_left_mono)
  have b3: "0 \<le> a * c3" "a * c3 \<le> a * 620"
    using assms by (simp_all add: mult_left_mono)
  have "- 620 \<le> p * c1" "p * c1 \<le> 620" using b1 assms(1-4) by linarith+
  note m1 = fmul_within [OF this]
  have "- 620 \<le> v * c2" "v * c2 \<le> 620" using b2 assms(1-4) by linarith+
  note m2 = fmul_within [OF this]
  have "- 620 \<le> a * c3" "a * c3 \<le> 620" using b3 assms(1-4) by linarith+
  note m3 = fmul_within [OF this]
  let ?s1 = "fadd binary64 (fmul binary64 p c1) (fmul binary64 v c2)"
  have "- 621 \<le> fmul binary64 p c1 + fmul binary64 v c2"
      "fmul binary64 p c1 + fmul binary64 v c2 \<le> 621"
    using m1 m2 b1 b2 assms(1-4) e by linarith+
  note a12 = fadd_within [OF this]
  let ?s2 = "fadd binary64 ?s1 (fmul binary64 a c3)"
  have "- 621 \<le> ?s1 + fmul binary64 a c3" "?s1 + fmul binary64 a c3 \<le> 621"
    using m1 m2 m3 a12 b1 b2 b3 assms(1-4) e by linarith+
  note a123 = fadd_within [OF this]
  show "p * c1 + v * c2 + a * c3 - 4096 * eps64 \<le> ?s2"
    using m1 m2 m3 a12 a123 e by linarith
  show "?s2 \<le> p * c1 + v * c2 + a * c3 + 4096 * eps64"
    using m1 m2 m3 a12 a123 e by linarith
qed

lemma canvas_consts:
  "fsub binary64 80 470 = - 390" "fsub binary64 350 80 = 270"
  "fsub binary64 470 470 = 0" "fsub binary64 80 620 = - 540"
  "fsub binary64 470 80 = 390" "fsub binary64 620 350 = 270"
  by code_simp+

lemma signedArea_top_left_within:
  assumes X: "X0x - k \<le> x X" "x X \<le> X0x + k" "X0y - k \<le> y X" "y X \<le> X0y + k"
    and k: "0 \<le> k" "k \<le> 1"
    and box: "80 \<le> X0x" "X0x \<le> 620" "80 \<le> X0y" "X0y \<le> 470"
  shows "(158100 - 390 * X0x - 270 * X0y) - (1080 * k + 4194304 * eps64)
      \<le> signedArea binary64 X (top' canvas_triangle) (left canvas_triangle)"
    and "signedArea binary64 X (top' canvas_triangle) (left canvas_triangle)
      \<le> (158100 - 390 * X0x - 270 * X0y) + (1080 * k + 4194304 * eps64)"
proof -
  note e = eps64_bounds
  let ?u1 = "fsub binary64 (x X) 80"
  let ?u2 = "fsub binary64 (y X) 470"
  have "- 1024 \<le> x X - 80" "x X - 80 \<le> 1024" using X k box by linarith+
  note u1 = fsub_within [OF this]
  have "- 1024 \<le> y X - 470" "y X - 470 \<le> 1024" using X k box by linarith+
  note u2 = fsub_within [OF this]
  let ?m1 = "fmul binary64 ?u1 (- 390)"
  let ?m2 = "fmul binary64 270 ?u2"
  have "- 524288 \<le> ?u1 * (- 390)" "?u1 * (- 390) \<le> 524288" using u1 X k box e by linarith+
  note m1 = fmul_within [OF this]
  have "- 524288 \<le> 270 * ?u2" "270 * ?u2 \<le> 524288" using u2 X k box e by linarith+
  note m2 = fmul_within [OF this]
  have "- 1048576 \<le> ?m1 - ?m2" "?m1 - ?m2 \<le> 1048576"
    using m1 m2 u1 u2 X k box e by linarith+
  note d = fsub_within [OF this]
  have area: "signedArea binary64 X (top' canvas_triangle) (left canvas_triangle) =
      fsub binary64 ?m1 ?m2"
    by (simp add: signedArea_def canvas_triangle_def canvas_consts)
  show "(158100 - 390 * X0x - 270 * X0y) - (1080 * k + 4194304 * eps64)
      \<le> signedArea binary64 X (top' canvas_triangle) (left canvas_triangle)"
    unfolding area using d m1 m2 u1 u2 X k e by linarith
  show "signedArea binary64 X (top' canvas_triangle) (left canvas_triangle)
      \<le> (158100 - 390 * X0x - 270 * X0y) + (1080 * k + 4194304 * eps64)"
    unfolding area using d m1 m2 u1 u2 X k e by linarith
qed

lemma signedArea_right_top_within:
  assumes X: "X0x - k \<le> x X" "x X \<le> X0x + k" "X0y - k \<le> y X" "y X \<le> X0y + k"
    and k: "0 \<le> k" "k \<le> 1"
    and box: "80 \<le> X0x" "X0x \<le> 620" "80 \<le> X0y" "X0y \<le> 470"
  shows "(390 * X0x - 270 * X0y - 114900) - (1080 * k + 4194304 * eps64)
      \<le> signedArea binary64 X (right canvas_triangle) (top' canvas_triangle)"
    and "signedArea binary64 X (right canvas_triangle) (top' canvas_triangle)
      \<le> (390 * X0x - 270 * X0y - 114900) + (1080 * k + 4194304 * eps64)"
proof -
  note e = eps64_bounds
  let ?u1 = "fsub binary64 (x X) 350"
  let ?u2 = "fsub binary64 (y X) 80"
  have "- 1024 \<le> x X - 350" "x X - 350 \<le> 1024" using X k box by linarith+
  note u1 = fsub_within [OF this]
  have "- 1024 \<le> y X - 80" "y X - 80 \<le> 1024" using X k box by linarith+
  note u2 = fsub_within [OF this]
  let ?m1 = "fmul binary64 ?u1 390"
  let ?m2 = "fmul binary64 270 ?u2"
  have "- 524288 \<le> ?u1 * 390" "?u1 * 390 \<le> 524288" using u1 X k box e by linarith+
  note m1 = fmul_within [OF this]
  have "- 524288 \<le> 270 * ?u2" "270 * ?u2 \<le> 524288" using u2 X k box e by linarith+
  note m2 = fmul_within [OF this]
  have "- 1048576 \<le> ?m1 - ?m2" "?m1 - ?m2 \<le> 1048576"
    using m1 m2 u1 u2 X k box e by linarith+
  note d = fsub_within [OF this]
  have area: "signedArea binary64 X (right canvas_triangle) (top' canvas_triangle) =
      fsub binary64 ?m1 ?m2"
    by (simp add: signedArea_def canvas_triangle_def canvas_consts)
  show "(390 * X0x - 270 * X0y - 114900) - (1080 * k + 4194304 * eps64)
      \<le> signedArea binary64 X (right canvas_triangle) (top' canvas_triangle)"
    unfolding area using d m1 m2 u1 u2 X k e by linarith
  show "signedArea binary64 X (right canvas_triangle) (top' canvas_triangle)
      \<le> (390 * X0x - 270 * X0y - 114900) + (1080 * k + 4194304 * eps64)"
    unfolding area using d m1 m2 u1 u2 X k e by linarith
qed

lemma signedArea_left_right_within:
  assumes X: "X0y - k \<le> y X" "y X \<le> X0y + k"
    and k: "0 \<le> k" "k \<le> 1"
    and box: "80 \<le> X0y" "X0y \<le> 470"
  shows "(540 * X0y - 253800) - (1080 * k + 4194304 * eps64)
      \<le> signedArea binary64 X (left canvas_triangle) (right canvas_triangle)"
    and "signedArea binary64 X (left canvas_triangle) (right canvas_triangle)
      \<le> (540 * X0y - 253800) + (1080 * k + 4194304 * eps64)"
proof -
  note e = eps64_bounds
  let ?u2 = "fsub binary64 (y X) 470"
  have "- 1024 \<le> y X - 470" "y X - 470 \<le> 1024" using X k box by linarith+
  note u2 = fsub_within [OF this]
  let ?m2 = "fmul binary64 (- 540) ?u2"
  have "- 524288 \<le> - 540 * ?u2" "- 540 * ?u2 \<le> 524288" using u2 X k box e by linarith+
  note m2 = fmul_within [OF this]
  have "- 1048576 \<le> 0 - ?m2" "0 - ?m2 \<le> 1048576"
    using m2 u2 X k box e by linarith+
  note d = fsub_within [OF this]
  have area: "signedArea binary64 X (left canvas_triangle) (right canvas_triangle) =
      fsub binary64 0 ?m2"
    by (simp add: signedArea_def canvas_triangle_def canvas_consts fmul_def binary64_0)
  show "(540 * X0y - 253800) - (1080 * k + 4194304 * eps64)
      \<le> signedArea binary64 X (left canvas_triangle) (right canvas_triangle)"
    unfolding area using d m2 u2 X k e by linarith
  show "signedArea binary64 X (left canvas_triangle) (right canvas_triangle)
      \<le> (540 * X0y - 253800) + (1080 * k + 4194304 * eps64)"
    unfolding area using d m2 u2 X k e by linarith
qed

lemma std_clamp_within:
  assumes "0 \<le> w" "w \<le> 1" "w - e \<le> s" "s \<le> w + e"
  shows "w - e \<le> std_max 0 (std_min 1 s)" and "std_max 0 (std_min 1 s) \<le> w + e"
  using assms by (auto simp: std_max_def std_min_def)

lemma weight_within:
  assumes d: "- 210600 * w - E \<le> d" "d \<le> - 210600 * w + E"
    and w: "0 \<le> w" "w \<le> 1" and E: "0 \<le> E" "E \<le> 1"
  shows "w - (E / 210600 + 2 * eps64) \<le> std_max 0 (std_min 1 (binary64 (d / - 210600)))"
    and "std_max 0 (std_min 1 (binary64 (d / - 210600))) \<le> w + (E / 210600 + 2 * eps64)"
proof -
  have z: "w - E / 210600 \<le> d / - 210600" "d / - 210600 \<le> w + E / 210600"
    using d by linarith+
  have "- 2 \<le> d / - 210600" "d / - 210600 \<le> 2" using z w E by linarith+
  note r = binary64_within [OF this]
  have s: "w - (E / 210600 + 2 * eps64) \<le> binary64 (d / - 210600)"
      "binary64 (d / - 210600) \<le> w + (E / 210600 + 2 * eps64)"
    using r z by linarith+
  show "w - (E / 210600 + 2 * eps64) \<le> std_max 0 (std_min 1 (binary64 (d / - 210600)))"
    using w s by (rule std_clamp_within)
  show "std_max 0 (std_min 1 (binary64 (d / - 210600))) \<le> w + (E / 210600 + 2 * eps64)"
    using w s by (rule std_clamp_within)
qed

lemma canvas_area: "signedArea binary64 (top' canvas_triangle) (left canvas_triangle)
    (right canvas_triangle) = - 210600"
  by code_simp

lemma binary64_epsilon_value: "binary64 (1 / 1000) = 1152921504606847 / 1152921504606846976"
  by code_simp

lemma cartesianToBary_canvas:
  assumes "clampToTriangle binary64 canvas_triangle P = Some q"
  shows "cartesianToBary binary64 canvas_triangle P =
    Some \<lparr> performance = std_max 0 (std_min 1 (binary64
               (signedArea binary64 q (left canvas_triangle) (right canvas_triangle) / - 210600))),
           velocity = std_max 0 (std_min 1 (binary64
               (signedArea binary64 q (right canvas_triangle) (top' canvas_triangle) / - 210600))),
           adaptability = std_max 0 (std_min 1 (binary64
               (signedArea binary64 q (top' canvas_triangle) (left canvas_triangle) / - 210600))) \<rparr>"
  using assms
  by (simp add: cartesianToBary_def Let_def canvas_area fdiv_def binary64_epsilon_value)

text \<open>The weights computed from a point within \<open>k\<close> of the exact marker.\<close>

lemma weights_near:
  assumes bc: "0 \<le> p" "0 \<le> v" "0 \<le> a" "p + v + a = 1"
    and q: "350 * p + 80 * v + 620 * a - k \<le> x q" "x q \<le> 350 * p + 80 * v + 620 * a + k"
      "80 * p + 470 * v + 470 * a - k \<le> y q" "y q \<le> 80 * p + 470 * v + 470 * a + k"
    and k: "0 \<le> k" "k \<le> 1 / 10000"
  shows "p - (k / 195 + 22 * eps64) \<le> std_max 0 (std_min 1 (binary64
            (signedArea binary64 q (left canvas_triangle) (right canvas_triangle) / - 210600)))"
    and "std_max 0 (std_min 1 (binary64
            (signedArea binary64 q (left canvas_triangle) (right canvas_triangle) / - 210600)))
          \<le> p + (k / 195 + 22 * eps64)"
    and "v - (k / 195 + 22 * eps64) \<le> std_max 0 (std_min 1 (binary64
            (signedArea binary64 q (right canvas_triangle) (top' canvas_triangle) / - 210600)))"
    and "std_max 0 (std_min 1 (binary64
            (signedArea binary64 q (right canvas_triangle) (top' canvas_triangle) / - 210600)))
          \<le> v + (k / 195 + 22 * eps64)"
    and "a - (k / 195 + 22 * eps64) \<le> std_max 0 (std_min 1 (binary64
            (signedArea binary64 q (top' canvas_triangle) (left canvas_triangle) / - 210600)))"
    and "std_max 0 (std_min 1 (binary64
            (signedArea binary64 q (top' canvas_triangle) (left canvas_triangle) / - 210600)))
          \<le> a + (k / 195 + 22 * eps64)"
proof -
  note e = eps64_bounds
  define X0x where "X0x = 350 * p + 80 * v + 620 * a"
  define X0y where "X0y = 80 * p + 470 * v + 470 * a"
  define E where "E = 1080 * k + 4194304 * eps64"
  have X: "X0x - k \<le> x q" "x q \<le> X0x + k" "X0y - k \<le> y q" "y q \<le> X0y + k"
    using q by (simp_all add: X0x_def X0y_def)
  have k1: "0 \<le> k" "k \<le> 1" using k by linarith+
  have box: "80 \<le> X0x" "X0x \<le> 620" "80 \<le> X0y" "X0y \<le> 470"
    unfolding X0x_def X0y_def using bc by linarith+
  have E: "0 \<le> E" "E \<le> 1" unfolding E_def using k e by linarith+
  have Ek: "E / 210600 + 2 * eps64 \<le> k / 195 + 22 * eps64"
    unfolding E_def using k e by (simp add: add_divide_distrib)
  have lin: "540 * X0y - 253800 = - 210600 * p" "390 * X0x - 270 * X0y - 114900 = - 210600 * v"
    "158100 - 390 * X0x - 270 * X0y = - 210600 * a"
  proof -
    have a_eq: "a = 1 - p - v" using bc(4) by linarith
    show "540 * X0y - 253800 = - 210600 * p" "390 * X0x - 270 * X0y - 114900 = - 210600 * v"
      "158100 - 390 * X0x - 270 * X0y = - 210600 * a"
      unfolding X0x_def X0y_def a_eq by (simp_all add: algebra_simps)
  qed
  have p1: "p \<le> 1" and v1: "v \<le> 1" and a1: "a \<le> 1" using bc by linarith+
  have dp: "- 210600 * p - E \<le> signedArea binary64 q (left canvas_triangle) (right canvas_triangle)"
    "signedArea binary64 q (left canvas_triangle) (right canvas_triangle) \<le> - 210600 * p + E"
    using signedArea_left_right_within [OF X(3,4) k1 box(3,4)] lin(1) by (simp_all add: E_def)
  have dv: "- 210600 * v - E \<le> signedArea binary64 q (right canvas_triangle) (top' canvas_triangle)"
    "signedArea binary64 q (right canvas_triangle) (top' canvas_triangle) \<le> - 210600 * v + E"
    using signedArea_right_top_within [OF X k1 box] lin(2) by (simp_all add: E_def)
  have da: "- 210600 * a - E \<le> signedArea binary64 q (top' canvas_triangle) (left canvas_triangle)"
    "signedArea binary64 q (top' canvas_triangle) (left canvas_triangle) \<le> - 210600 * a + E"
    using signedArea_top_left_within [OF X k1 box] lin(3) by (simp_all add: E_def)
  note wp = weight_within [OF dp bc(1) p1 E]
  note wv = weight_within [OF dv bc(2) v1 E]
  note wa = weight_within [OF da bc(3) a1 E]
  show "p - (k / 195 + 22 * eps64) \<le> std_max 0 (std_min 1 (binary64
            (signedArea binary64 q (left canvas_triangle) (right canvas_triangle) / - 210600)))"
    using wp Ek by linarith
  show "std_max 0 (std_min 1 (binary64
            (signedArea binary64 q (left canvas_triangle) (right canvas_triangle) / - 210600)))
          \<le> p + (k / 195 + 22 * eps64)"
    using wp Ek by linarith
  show "v - (k / 195 + 22 * eps64) \<le> std_max 0 (std_min 1 (binary64
            (signedArea binary64 q (right canvas_triangle) (top' canvas_triangle) / - 210600)))"
    using wv Ek by linarith
  show "std_max 0 (std_min 1 (binary64
            (signedArea binary64 q (right canvas_triangle) (top' canvas_triangle) / - 210600)))
          \<le> v + (k / 195 + 22 * eps64)"
    using wv Ek by linarith
  show "a - (k / 195 + 22 * eps64) \<le> std_max 0 (std_min 1 (binary64
            (signedArea binary64 q (top' canvas_triangle) (left canvas_triangle) / - 210600)))"
    using wa Ek by linarith
  show "std_max 0 (std_min 1 (binary64
            (signedArea binary64 q (top' canvas_triangle) (left canvas_triangle) / - 210600)))
          \<le> a + (k / 195 + 22 * eps64)"
    using wa Ek by linarith
qed

lemma project_consts:
  "fsub binary64 80 350 = - 270" "fsub binary64 470 80 = 390"
  "fadd binary64 (fmul binary64 (- 270) (- 270)) (fmul binary64 390 390) = 225000"
  "fsub binary64 620 80 = 540" "fsub binary64 470 470 = 0"
  "fadd binary64 (fmul binary64 540 540) (fmul binary64 0 0) = 291600"
  "fsub binary64 350 620 = - 270" "fsub binary64 80 470 = - 390"
  "fadd binary64 (fmul binary64 (- 270) (- 270)) (fmul binary64 (- 390) (- 390)) = 225000"
  "fadd binary64 470 0 = 470"
  by code_simp+

lemma project_top_left_within:
  assumes ts: "0 \<le> ts" "ts \<le> 1"
    and P: "(350 - 270 * ts) - k \<le> x P" "x P \<le> (350 - 270 * ts) + k" "(80 + 390 * ts) - k \<le> y P" "y P \<le> (80 + 390 * ts) + k"
    and k: "0 \<le> k" "k \<le> 1 / 10000"
  shows "\<exists>q. projectPointOntoSegment binary64 P (top' canvas_triangle) (left canvas_triangle) = Some q \<and>
    - (3 * k + 16384 * eps64) \<le> x q - x P \<and> x q - x P \<le> 3 * k + 16384 * eps64 \<and>
    - (3 * k + 16384 * eps64) \<le> y q - y P \<and> y q - y P \<le> 3 * k + 16384 * eps64"
proof -
  note e = eps64_bounds
  let ?u1 = "fsub binary64 (x P) 350"
  let ?u2 = "fsub binary64 (y P) 80"
  have "- 1024 \<le> x P - 350" "x P - 350 \<le> 1024" using P k ts by linarith+
  note u1 = fsub_within [OF this]
  have "- 1024 \<le> y P - 80" "y P - 80 \<le> 1024" using P k ts by linarith+
  note u2 = fsub_within [OF this]
  let ?n1 = "fmul binary64 ?u1 (- 270)"
  let ?n2 = "fmul binary64 ?u2 390"
  have "- 524288 \<le> ?u1 * (- 270)" "?u1 * (- 270) \<le> 524288" using u1 P k ts e by linarith+
  note n1 = fmul_within [OF this]
  have "- 524288 \<le> ?u2 * 390" "?u2 * 390 \<le> 524288" using u2 P k ts e by linarith+
  note n2 = fmul_within [OF this]
  let ?num = "fadd binary64 ?n1 ?n2"
  have "- 1048576 \<le> ?n1 + ?n2" "?n1 + ?n2 \<le> 1048576"
    using n1 n2 u1 u2 P k ts e by linarith+
  note num = fadd_within [OF this]
  have numb: "225000 * ts - (660 * k + 4194304 * eps64) \<le> ?num"
      "?num \<le> 225000 * ts + (660 * k + 4194304 * eps64)"
    using num n1 n2 u1 u2 P k ts e by linarith+
  let ?tq = "binary64 (?num / 225000)"
  have "- 2 \<le> ?num / 225000" "?num / 225000 \<le> 2" using numb k ts e by linarith+
  note t0 = binary64_within [OF this]
  let ?t = "std_max 0 (std_min 1 ?tq)"
  have "ts - (k / 300 + 21 * eps64) \<le> ?tq" "?tq \<le> ts + (k / 300 + 21 * eps64)"
    using t0 numb k e by linarith+
  note t = std_clamp_within [OF ts this]
  let ?w1 = "fmul binary64 ?t (- 270)"
  let ?w2 = "fmul binary64 ?t 390"
  have "- 1024 \<le> ?t * (- 270)" "?t * (- 270) \<le> 1024" using t ts k e by linarith+
  note w1 = fmul_within [OF this]
  have "- 1024 \<le> ?t * 390" "?t * 390 \<le> 1024" using t ts k e by linarith+
  note w2 = fmul_within [OF this]
  let ?qx = "fadd binary64 350 ?w1"
  let ?qy = "fadd binary64 80 ?w2"
  have "- 1024 \<le> 350 + ?w1" "350 + ?w1 \<le> 1024" using w1 t ts k e by linarith+
  note qx = fadd_within [OF this]
  have "- 1024 \<le> 80 + ?w2" "80 + ?w2 \<le> 1024" using w2 t ts k e by linarith+
  note qy = fadd_within [OF this]
  have form: "projectPointOntoSegment binary64 P (top' canvas_triangle) (left canvas_triangle) =
      Some \<lparr> x = ?qx, y = ?qy \<rparr>"
    by (simp add: projectPointOntoSegment_def Let_def canvas_triangle_def project_consts
        fdiv_def binary64_epsilon_value)
  have "- (3 * k + 16384 * eps64) \<le> ?qx - x P" "?qx - x P \<le> 3 * k + 16384 * eps64"
    "- (3 * k + 16384 * eps64) \<le> ?qy - y P" "?qy - y P \<le> 3 * k + 16384 * eps64"
    using qx qy w1 w2 t P k e by linarith+
  with form show ?thesis by simp
qed

lemma project_right_top_within:
  assumes ts: "0 \<le> ts" "ts \<le> 1"
    and P: "(620 - 270 * ts) - k \<le> x P" "x P \<le> (620 - 270 * ts) + k" "(470 - 390 * ts) - k \<le> y P" "y P \<le> (470 - 390 * ts) + k"
    and k: "0 \<le> k" "k \<le> 1 / 10000"
  shows "\<exists>q. projectPointOntoSegment binary64 P (right canvas_triangle) (top' canvas_triangle) = Some q \<and>
    - (3 * k + 16384 * eps64) \<le> x q - x P \<and> x q - x P \<le> 3 * k + 16384 * eps64 \<and>
    - (3 * k + 16384 * eps64) \<le> y q - y P \<and> y q - y P \<le> 3 * k + 16384 * eps64"
proof -
  note e = eps64_bounds
  let ?u1 = "fsub binary64 (x P) 620"
  let ?u2 = "fsub binary64 (y P) 470"
  have "- 1024 \<le> x P - 620" "x P - 620 \<le> 1024" using P k ts by linarith+
  note u1 = fsub_within [OF this]
  have "- 1024 \<le> y P - 470" "y P - 470 \<le> 1024" using P k ts by linarith+
  note u2 = fsub_within [OF this]
  let ?n1 = "fmul binary64 ?u1 (- 270)"
  let ?n2 = "fmul binary64 ?u2 (- 390)"
  have "- 524288 \<le> ?u1 * (- 270)" "?u1 * (- 270) \<le> 524288" using u1 P k ts e by linarith+
  note n1 = fmul_within [OF this]
  have "- 524288 \<le> ?u2 * (- 390)" "?u2 * (- 390) \<le> 524288" using u2 P k ts e by linarith+
  note n2 = fmul_within [OF this]
  let ?num = "fadd binary64 ?n1 ?n2"
  have "- 1048576 \<le> ?n1 + ?n2" "?n1 + ?n2 \<le> 1048576"
    using n1 n2 u1 u2 P k ts e by linarith+
  note num = fadd_within [OF this]
  have numb: "225000 * ts - (660 * k + 4194304 * eps64) \<le> ?num"
      "?num \<le> 225000 * ts + (660 * k + 4194304 * eps64)"
    using num n1 n2 u1 u2 P k ts e by linarith+
  let ?tq = "binary64 (?num / 225000)"
  have "- 2 \<le> ?num / 225000" "?num / 225000 \<le> 2" using numb k ts e by linarith+
  note t0 = binary64_within [OF this]
  let ?t = "std_max 0 (std_min 1 ?tq)"
  have "ts - (k / 300 + 21 * eps64) \<le> ?tq" "?tq \<le> ts + (k / 300 + 21 * eps64)"
    using t0 numb k e by linarith+
  note t = std_clamp_within [OF ts this]
  let ?w1 = "fmul binary64 ?t (- 270)"
  let ?w2 = "fmul binary64 ?t (- 390)"
  have "- 1024 \<le> ?t * (- 270)" "?t * (- 270) \<le> 1024" using t ts k e by linarith+
  note w1 = fmul_within [OF this]
  have "- 1024 \<le> ?t * (- 390)" "?t * (- 390) \<le> 1024" using t ts k e by linarith+
  note w2 = fmul_within [OF this]
  let ?qx = "fadd binary64 620 ?w1"
  let ?qy = "fadd binary64 470 ?w2"
  have "- 1024 \<le> 620 + ?w1" "620 + ?w1 \<le> 1024" using w1 t ts k e by linarith+
  note qx = fadd_within [OF this]
  have "- 1024 \<le> 470 + ?w2" "470 + ?w2 \<le> 1024" using w2 t ts k e by linarith+
  note qy = fadd_within [OF this]
  have form: "projectPointOntoSegment binary64 P (right canvas_triangle) (top' canvas_triangle) =
      Some \<lparr> x = ?qx, y = ?qy \<rparr>"
    by (simp add: projectPointOntoSegment_def Let_def canvas_triangle_def project_consts
        fdiv_def binary64_epsilon_value)
  have "- (3 * k + 16384 * eps64) \<le> ?qx - x P" "?qx - x P \<le> 3 * k + 16384 * eps64"
    "- (3 * k + 16384 * eps64) \<le> ?qy - y P" "?qy - y P \<le> 3 * k + 16384 * eps64"
    using qx qy w1 w2 t P k e by linarith+
  with form show ?thesis by simp
qed

lemma fmul_zero: "fmul binary64 z 0 = 0"
  by (simp add: fmul_def binary64_0)

lemma project_const_left_right: "fadd binary64 (fmul binary64 540 540) 0 = 291600"
  by code_simp

lemma project_left_right_within:
  assumes ts: "0 \<le> ts" "ts \<le> 1"
    and P: "(80 + 540 * ts) - k \<le> x P" "x P \<le> (80 + 540 * ts) + k"
      "470 - k \<le> y P" "y P \<le> 470 + k"
    and k: "0 \<le> k" "k \<le> 1 / 10000"
  shows "\<exists>q. projectPointOntoSegment binary64 P (left canvas_triangle) (right canvas_triangle) = Some q \<and>
    - (3 * k + 16384 * eps64) \<le> x q - x P \<and> x q - x P \<le> 3 * k + 16384 * eps64 \<and>
    - (3 * k + 16384 * eps64) \<le> y q - y P \<and> y q - y P \<le> 3 * k + 16384 * eps64"
proof -
  note e = eps64_bounds
  let ?u1 = "fsub binary64 (x P) 80"
  have "- 1024 \<le> x P - 80" "x P - 80 \<le> 1024" using P k ts by linarith+
  note u1 = fsub_within [OF this]
  let ?n1 = "fmul binary64 ?u1 540"
  have "- 524288 \<le> ?u1 * 540" "?u1 * 540 \<le> 524288" using u1 P k ts e by linarith+
  note n1 = fmul_within [OF this]
  let ?num = "fadd binary64 ?n1 0"
  have "- 1048576 \<le> ?n1 + 0" "?n1 + 0 \<le> 1048576"
    using n1 u1 P k ts e by linarith+
  note num = fadd_within [OF this]
  have numb: "291600 * ts - (540 * k + 4194304 * eps64) \<le> ?num"
      "?num \<le> 291600 * ts + (540 * k + 4194304 * eps64)"
    using num n1 u1 P k ts e by linarith+
  let ?tq = "binary64 (?num / 291600)"
  have "- 2 \<le> ?num / 291600" "?num / 291600 \<le> 2" using numb k ts e by linarith+
  note tq = binary64_within [OF this]
  let ?t = "std_max 0 (std_min 1 ?tq)"
  have "ts - (k / 300 + 21 * eps64) \<le> ?tq" "?tq \<le> ts + (k / 300 + 21 * eps64)"
    using tq numb k e by linarith+
  note t = std_clamp_within [OF ts this]
  let ?w1 = "fmul binary64 ?t 540"
  have "- 1024 \<le> ?t * 540" "?t * 540 \<le> 1024" using t ts k e by linarith+
  note w1 = fmul_within [OF this]
  let ?qx = "fadd binary64 80 ?w1"
  have "- 1024 \<le> 80 + ?w1" "80 + ?w1 \<le> 1024" using w1 t ts k e by linarith+
  note qx = fadd_within [OF this]
  have form: "projectPointOntoSegment binary64 P (left canvas_triangle) (right canvas_triangle) =
      Some \<lparr> x = ?qx, y = 470 \<rparr>"
    by (simp add: projectPointOntoSegment_def Let_def canvas_triangle_def project_consts
        fdiv_def binary64_epsilon_value fmul_zero project_const_left_right)
  have "- (3 * k + 16384 * eps64) \<le> ?qx - x P" "?qx - x P \<le> 3 * k + 16384 * eps64"
    "- (3 * k + 16384 * eps64) \<le> 470 - y P" "470 - y P \<le> 3 * k + 16384 * eps64"
    using qx w1 t P k e by linarith+
  with form show ?thesis by simp
qed

text \<open>Squared distances, as \<^verbatim>\<open>distSq\<close> computes them.\<close>

lemma square_le:
  fixes z c :: real
  assumes "- c \<le> z" "z \<le> c"
  shows "z * z \<le> c * c"
proof -
  have "\<bar>z\<bar> \<le> \<bar>c\<bar>" using assms by (simp add: abs_le_iff)
  then show ?thesis by (simp add: abs_le_square_iff power2_eq_square)
qed

lemma square_le_D:
  fixes z c :: real
  assumes "z * z \<le> c * c" "0 \<le> c"
  shows "- c \<le> z" and "z \<le> c"
proof -
  have "\<bar>z\<bar> \<le> \<bar>c\<bar>" using assms(1) by (simp add: abs_le_square_iff power2_eq_square)
  then show "- c \<le> z" and "z \<le> c" using assms(2) by (simp_all add: abs_le_iff)
qed

lemma binary64_relative:
  shows "binary64 z - z \<le> \<bar>z\<bar> / 9007199254740992"
    and "z - binary64 z \<le> \<bar>z\<bar> / 9007199254740992"
proof -
  have h: "\<bar>binary64 z - z\<bar> \<le> \<bar>z\<bar> / 9007199254740992"
    using binary64_error [of z] by simp
  show "binary64 z - z \<le> \<bar>z\<bar> / 9007199254740992"
    using abs_le_D1 [OF h] .
  show "z - binary64 z \<le> \<bar>z\<bar> / 9007199254740992"
    using abs_le_D2 [OF h] by simp
qed

lemma binary64_nonneg: "0 \<le> z \<Longrightarrow> 0 \<le> binary64 z"
  using binary64_relative(2) [of z] by simp

lemma binary64_bound:
  assumes "- c \<le> z" "z \<le> c"
  shows "- (c + c / 1000000000000000) \<le> binary64 z" and "binary64 z \<le> c + c / 1000000000000000"
proof -
  have a: "\<bar>z\<bar> \<le> c" using assms by (simp add: abs_le_iff)
  show "- (c + c / 1000000000000000) \<le> binary64 z"
    using binary64_relative(2) [of z] a assms by linarith
  show "binary64 z \<le> c + c / 1000000000000000"
    using binary64_relative(1) [of z] a assms by linarith
qed

lemma binary64_bound_inverse:
  assumes "- c \<le> binary64 z" "binary64 z \<le> c"
  shows "- (c + c / 1000000000000000) \<le> z" and "z \<le> c + c / 1000000000000000"
proof -
  have c: "0 \<le> c" using assms by linarith
  have "- (c + c / 1000000000000000) \<le> z \<and> z \<le> c + c / 1000000000000000"
  proof (cases "0 \<le> z")
    case True
    then have "\<bar>z\<bar> = z" by simp
    with binary64_relative(2) [of z] assms c True show ?thesis by linarith
  next
    case False
    then have "\<bar>z\<bar> = - z" by simp
    with binary64_relative(1) [of z] assms c False show ?thesis by linarith
  qed
  then show "- (c + c / 1000000000000000) \<le> z" and "z \<le> c + c / 1000000000000000"
    by simp_all
qed

lemma binary64_nonneg_bounds:
  assumes "0 \<le> z"
  shows "binary64 z \<le> z + z / 1000000000000000" and "z \<le> binary64 z + binary64 z / 1000000000000000"
proof -
  have a: "\<bar>z\<bar> = z" using assms by simp
  show "binary64 z \<le> z + z / 1000000000000000"
    using binary64_relative(1) [of z] a assms by linarith
  show "z \<le> binary64 z + binary64 z / 1000000000000000"
    using binary64_relative(2) [of z] a assms by linarith
qed

lemma distSq_upper:
  assumes "- (12 / 1000000000000) \<le> x q - x P" "x q - x P \<le> 12 / 1000000000000"
    and "- (12 / 1000000000000) \<le> y q - y P" "y q - y P \<le> 12 / 1000000000000"
  shows "distSq binary64 P q \<le> 288000001 / 1000000000000000000000000000000"
proof -
  let ?ex = "binary64 (x q - x P)"
  let ?ey = "binary64 (y q - y P)"
  note ex = binary64_bound [OF assms(1,2)]
  note ey = binary64_bound [OF assms(3,4)]
  have c: "(1200000001 / 100000000000000000000) * (1200000001 / 100000000000000000000) \<le> (1440000003 / 10000000000000000000000000000000 :: real)" by simp
  have "- (1200000001 / 100000000000000000000) \<le> ?ex" "?ex \<le> 1200000001 / 100000000000000000000"
    using ex by linarith+
  from square_le [OF this] c have sx: "?ex * ?ex \<le> 1440000003 / 10000000000000000000000000000000" by (rule order_trans)
  have "- (1200000001 / 100000000000000000000) \<le> ?ey" "?ey \<le> 1200000001 / 100000000000000000000"
    using ey by linarith+
  from square_le [OF this] c have sy: "?ey * ?ey \<le> 1440000003 / 10000000000000000000000000000000" by (rule order_trans)
  have px: "0 \<le> ?ex * ?ex" and py: "0 \<le> ?ey * ?ey" by simp_all
  have bx: "binary64 (?ex * ?ex) \<le> 1440000004 / 10000000000000000000000000000000"
    using binary64_nonneg_bounds(1) [OF px] sx by linarith
  have by': "binary64 (?ey * ?ey) \<le> 1440000004 / 10000000000000000000000000000000"
    using binary64_nonneg_bounds(1) [OF py] sy by linarith
  have s0: "0 \<le> binary64 (?ex * ?ex) + binary64 (?ey * ?ey)"
    using binary64_nonneg [OF px] binary64_nonneg [OF py] by linarith
  define s where "s = binary64 (?ex * ?ex) + binary64 (?ey * ?ey)"
  have "0 \<le> s" "s \<le> 2880000008 / 10000000000000000000000000000000" using s0 bx by' unfolding s_def by linarith+
  then have "binary64 s \<le> 288000001 / 1000000000000000000000000000000"
    using binary64_nonneg_bounds(1) [of s] by linarith
  then have "binary64 (binary64 (?ex * ?ex) + binary64 (?ey * ?ey)) \<le> 288000001 / 1000000000000000000000000000000"
    unfolding s_def .
  then show ?thesis
    by (simp add: distSq_def Let_def fadd_def fsub_def fmul_def)
qed

lemma distSq_lower:
  assumes "distSq binary64 P q \<le> 288000001 / 1000000000000000000000000000000"
  shows "- (17 / 1000000000000) \<le> x q - x P" and "x q - x P \<le> 17 / 1000000000000"
    and "- (17 / 1000000000000) \<le> y q - y P" and "y q - y P \<le> 17 / 1000000000000"
proof -
  let ?ex = "binary64 (x q - x P)"
  let ?ey = "binary64 (y q - y P)"
  have px: "0 \<le> ?ex * ?ex" and py: "0 \<le> ?ey * ?ey" by simp_all
  have bx: "0 \<le> binary64 (?ex * ?ex)" and by': "0 \<le> binary64 (?ey * ?ey)"
    using binary64_nonneg [OF px] binary64_nonneg [OF py] by simp_all
  have s0: "0 \<le> binary64 (?ex * ?ex) + binary64 (?ey * ?ey)" using bx by' by linarith
  have d: "binary64 (binary64 (?ex * ?ex) + binary64 (?ey * ?ey)) \<le> 288000001 / 1000000000000000000000000000000"
    using assms by (simp add: distSq_def Let_def fadd_def fsub_def fmul_def)
  have s: "binary64 (?ex * ?ex) + binary64 (?ey * ?ey) \<le> 288000002 / 1000000000000000000000000000000"
    using binary64_nonneg_bounds(2) [OF s0] d by linarith
  have c: "(288000003 / 1000000000000000000000000000000 :: real) \<le> (1698 / 100000000000000) * (1698 / 100000000000000)" by simp
  have "?ex * ?ex \<le> 288000003 / 1000000000000000000000000000000"
    using binary64_nonneg_bounds(2) [OF px] s by' by linarith
  then have "?ex * ?ex \<le> (1698 / 100000000000000) * (1698 / 100000000000000)" using c by (rule order_trans)
  then have gx: "- (1698 / 100000000000000) \<le> ?ex" "?ex \<le> 1698 / 100000000000000"
    by (rule square_le_D, simp)+
  have "?ey * ?ey \<le> 288000003 / 1000000000000000000000000000000"
    using binary64_nonneg_bounds(2) [OF py] s bx by linarith
  then have "?ey * ?ey \<le> (1698 / 100000000000000) * (1698 / 100000000000000)" using c by (rule order_trans)
  then have gy: "- (1698 / 100000000000000) \<le> ?ey" "?ey \<le> 1698 / 100000000000000"
    by (rule square_le_D, simp)+
  show "- (17 / 1000000000000) \<le> x q - x P" and "x q - x P \<le> 17 / 1000000000000"
    using binary64_bound_inverse [OF gx] by linarith+
  show "- (17 / 1000000000000) \<le> y q - y P" and "y q - y P \<le> 17 / 1000000000000"
    using binary64_bound_inverse [OF gy] by linarith+
qed

lemma selected_le:
  fixes d1 d2 d3 :: real
  shows "(if d1 \<le> d2 \<and> d1 \<le> d3 then d1 else if d2 \<le> d3 then d2 else d3) \<le> d1"
    and "(if d1 \<le> d2 \<and> d1 \<le> d3 then d1 else if d2 \<le> d3 then d2 else d3) \<le> d2"
    and "(if d1 \<le> d2 \<and> d1 \<le> d3 then d1 else if d2 \<le> d3 then d2 else d3) \<le> d3"
  by auto

lemma clampToTriangle_selected:
  assumes "\<not> isInside rnd T p"
    and "projectPointOntoSegment rnd p (top' T) (left T) = Some q1"
    and "projectPointOntoSegment rnd p (left T) (right T) = Some q2"
    and "projectPointOntoSegment rnd p (right T) (top' T) = Some q3"
  shows "\<exists>q. clampToTriangle rnd T p = Some q \<and> distSq rnd p q \<le> distSq rnd p q1 \<and>
    distSq rnd p q \<le> distSq rnd p q2 \<and> distSq rnd p q \<le> distSq rnd p q3"
  unfolding clampToTriangle_outside [OF assms] by auto

text \<open>The clamped marker is within \<open>18 / 10 ^ 12\<close> of the exact marker.\<close>

lemma clamp_near:
  assumes bc: "0 \<le> p" "0 \<le> v" "0 \<le> a" "p + v + a = 1"
    and P: "350 * p + 80 * v + 620 * a - 4096 * eps64 \<le> x P"
      "x P \<le> 350 * p + 80 * v + 620 * a + 4096 * eps64"
      "80 * p + 470 * v + 470 * a - 4096 * eps64 \<le> y P"
      "y P \<le> 80 * p + 470 * v + 470 * a + 4096 * eps64"
  shows "\<exists>q. clampToTriangle binary64 canvas_triangle P = Some q \<and>
    350 * p + 80 * v + 620 * a - 18 / 1000000000000 \<le> x q \<and>
    x q \<le> 350 * p + 80 * v + 620 * a + 18 / 1000000000000 \<and>
    80 * p + 470 * v + 470 * a - 18 / 1000000000000 \<le> y q \<and>
    y q \<le> 80 * p + 470 * v + 470 * a + 18 / 1000000000000"
proof (cases "isInside binary64 canvas_triangle P")
  case True
  then have "clampToTriangle binary64 canvas_triangle P = Some P"
    by (simp add: clampToTriangle_def)
  then show ?thesis using P eps64_bounds by (simp; linarith)
next
  case False
  note e = eps64_bounds
  define X0x where "X0x = 350 * p + 80 * v + 620 * a"
  define X0y where "X0y = 80 * p + 470 * v + 470 * a"
  define k where "k = 4096 * eps64"
  have X: "X0x - k \<le> x P" "x P \<le> X0x + k" "X0y - k \<le> y P" "y P \<le> X0y + k"
    using P by (simp_all add: X0x_def X0y_def k_def)
  have k1: "0 \<le> k" "k \<le> 1" unfolding k_def using e by linarith+
  have box: "80 \<le> X0x" "X0x \<le> 620" "80 \<le> X0y" "X0y \<le> 470"
    unfolding X0x_def X0y_def using bc by linarith+
  have lin: "540 * X0y - 253800 = - 210600 * p" "390 * X0x - 270 * X0y - 114900 = - 210600 * v"
    "158100 - 390 * X0x - 270 * X0y = - 210600 * a"
  proof -
    have a_eq: "a = 1 - p - v" using bc(4) by linarith
    show "540 * X0y - 253800 = - 210600 * p" "390 * X0x - 270 * X0y - 114900 = - 210600 * v"
      "158100 - 390 * X0x - 270 * X0y = - 210600 * a"
      unfolding X0x_def X0y_def a_eq by (simp_all add: algebra_simps)
  qed
  have Xy: "X0y = 470 - 390 * p" unfolding X0y_def using bc(4) by linarith
  have dp: "signedArea binary64 P (left canvas_triangle) (right canvas_triangle)
      \<le> - 210600 * p + 8617984 * eps64"
    using signedArea_left_right_within(2) [OF X(3,4) k1 box(3,4)] lin(1) by (simp add: k_def)
  have dv: "signedArea binary64 P (right canvas_triangle) (top' canvas_triangle)
      \<le> - 210600 * v + 8617984 * eps64"
    using signedArea_right_top_within(2) [OF X k1 box] lin(2) by (simp add: k_def)
  have da: "signedArea binary64 P (top' canvas_triangle) (left canvas_triangle)
      \<le> - 210600 * a + 8617984 * eps64"
    using signedArea_top_left_within(2) [OF X k1 box] lin(3) by (simp add: k_def)
  have pos: "0 < signedArea binary64 P (top' canvas_triangle) (left canvas_triangle) \<or>
      0 < signedArea binary64 P (left canvas_triangle) (right canvas_triangle) \<or>
      0 < signedArea binary64 P (right canvas_triangle) (top' canvas_triangle)"
    using False by (auto simp: isInside_def Let_def)
  note eps = rounding_cases(1) [of binary64, simplified]
  obtain q1 where q1: "projectPointOntoSegment binary64 P (top' canvas_triangle)
      (left canvas_triangle) = Some q1"
    using projectPointOntoSegment_total [OF eps] by blast
  obtain q2 where q2: "projectPointOntoSegment binary64 P (left canvas_triangle)
      (right canvas_triangle) = Some q2"
    using projectPointOntoSegment_total [OF eps] by blast
  obtain q3 where q3: "projectPointOntoSegment binary64 P (right canvas_triangle)
      (top' canvas_triangle) = Some q3"
    using projectPointOntoSegment_total [OF eps] by blast
  have near: "\<exists>q'. (q' = q1 \<or> q' = q2 \<or> q' = q3) \<and>
      - (12 / 1000000000000) \<le> x q' - x P \<and> x q' - x P \<le> 12 / 1000000000000 \<and>
      - (12 / 1000000000000) \<le> y q' - y P \<and> y q' - y P \<le> 12 / 1000000000000"
    using pos
  proof (elim disjE)
    assume "0 < signedArea binary64 P (top' canvas_triangle) (left canvas_triangle)"
    with da have small: "210600 * a \<le> 8617984 * eps64" by linarith
    define ts where "ts = 1 - p"
    define k' where "k' = 540 * a + 4096 * eps64"
    have ts: "0 \<le> ts" "ts \<le> 1" using bc ts_def by linarith+
    have k': "0 \<le> k'" "k' \<le> 1 / 10000" using small bc e k'_def by linarith+
    have Q: "(350 - 270 * ts) - k' \<le> x P" "x P \<le> (350 - 270 * ts) + k'"
      "(80 + 390 * ts) - k' \<le> y P" "y P \<le> (80 + 390 * ts) + k'"
      using P bc ts_def k'_def by linarith+
    from project_top_left_within [OF ts Q k'] q1
    have "- (3 * k' + 16384 * eps64) \<le> x q1 - x P \<and> x q1 - x P \<le> 3 * k' + 16384 * eps64 \<and>
      - (3 * k' + 16384 * eps64) \<le> y q1 - y P \<and> y q1 - y P \<le> 3 * k' + 16384 * eps64"
      by simp
    moreover have "3 * k' + 16384 * eps64 \<le> 12 / 1000000000000"
      using small e k'_def by linarith
    ultimately show ?thesis by (intro exI [of _ q1]) (simp; linarith)
  next
    assume "0 < signedArea binary64 P (left canvas_triangle) (right canvas_triangle)"
    with dp have small: "210600 * p \<le> 8617984 * eps64" by linarith
    define ts where "ts = 1 - v"
    define k' where "k' = 540 * p + 4096 * eps64"
    have ts: "0 \<le> ts" "ts \<le> 1" using bc ts_def by linarith+
    have k': "0 \<le> k'" "k' \<le> 1 / 10000" using small bc e k'_def by linarith+
    have Q: "(80 + 540 * ts) - k' \<le> x P" "x P \<le> (80 + 540 * ts) + k'"
      "470 - k' \<le> y P" "y P \<le> 470 + k'"
      using P bc ts_def k'_def by linarith+
    from project_left_right_within [OF ts Q k'] q2
    have "- (3 * k' + 16384 * eps64) \<le> x q2 - x P \<and> x q2 - x P \<le> 3 * k' + 16384 * eps64 \<and>
      - (3 * k' + 16384 * eps64) \<le> y q2 - y P \<and> y q2 - y P \<le> 3 * k' + 16384 * eps64"
      by simp
    moreover have "3 * k' + 16384 * eps64 \<le> 12 / 1000000000000"
      using small e k'_def by linarith
    ultimately show ?thesis by (intro exI [of _ q2]) (simp; linarith)
  next
    assume "0 < signedArea binary64 P (right canvas_triangle) (top' canvas_triangle)"
    with dv have small: "210600 * v \<le> 8617984 * eps64" by linarith
    define ts where "ts = 1 - a"
    define k' where "k' = 540 * v + 4096 * eps64"
    have ts: "0 \<le> ts" "ts \<le> 1" using bc ts_def by linarith+
    have k': "0 \<le> k'" "k' \<le> 1 / 10000" using small bc e k'_def by linarith+
    have Q: "(620 - 270 * ts) - k' \<le> x P" "x P \<le> (620 - 270 * ts) + k'"
      "(470 - 390 * ts) - k' \<le> y P" "y P \<le> (470 - 390 * ts) + k'"
      using P bc ts_def k'_def by linarith+
    from project_right_top_within [OF ts Q k'] q3
    have "- (3 * k' + 16384 * eps64) \<le> x q3 - x P \<and> x q3 - x P \<le> 3 * k' + 16384 * eps64 \<and>
      - (3 * k' + 16384 * eps64) \<le> y q3 - y P \<and> y q3 - y P \<le> 3 * k' + 16384 * eps64"
      by simp
    moreover have "3 * k' + 16384 * eps64 \<le> 12 / 1000000000000"
      using small e k'_def by linarith
    ultimately show ?thesis by (intro exI [of _ q3]) (simp; linarith)
  qed
  then obtain q' where q': "q' = q1 \<or> q' = q2 \<or> q' = q3"
    and n: "- (12 / 1000000000000) \<le> x q' - x P" "x q' - x P \<le> 12 / 1000000000000"
      "- (12 / 1000000000000) \<le> y q' - y P" "y q' - y P \<le> 12 / 1000000000000"
    by blast
  note up = distSq_upper [OF n]
  from clampToTriangle_selected [OF False q1 q2 q3] obtain q where
    q: "clampToTriangle binary64 canvas_triangle P = Some q"
    and le: "distSq binary64 P q \<le> distSq binary64 P q1" "distSq binary64 P q \<le> distSq binary64 P q2"
      "distSq binary64 P q \<le> distSq binary64 P q3"
    by blast
  have "distSq binary64 P q \<le> distSq binary64 P q'" using q' le by blast
  with up have "distSq binary64 P q \<le> 288000001 / 1000000000000000000000000000000"
    by (rule order_trans [rotated])
  note lo = distSq_lower [OF this]
  show ?thesis
    using q lo P e by (intro exI [of _ q]) (simp; linarith)
qed

lemma marker_within:
  assumes bc: "0 \<le> performance bc" "0 \<le> velocity bc" "0 \<le> adaptability bc"
      "performance bc + velocity bc + adaptability bc = 1"
  shows "350 * performance bc + 80 * velocity bc + 620 * adaptability bc - 4096 * eps64
      \<le> x (baryToCartesian binary64 canvas_triangle bc)"
    and "x (baryToCartesian binary64 canvas_triangle bc)
      \<le> 350 * performance bc + 80 * velocity bc + 620 * adaptability bc + 4096 * eps64"
    and "80 * performance bc + 470 * velocity bc + 470 * adaptability bc - 4096 * eps64
      \<le> y (baryToCartesian binary64 canvas_triangle bc)"
    and "y (baryToCartesian binary64 canvas_triangle bc)
      \<le> 80 * performance bc + 470 * velocity bc + 470 * adaptability bc + 4096 * eps64"
proof -
  have X: "x (baryToCartesian binary64 canvas_triangle bc) =
      fadd binary64 (fadd binary64 (fmul binary64 (performance bc) 350)
        (fmul binary64 (velocity bc) 80)) (fmul binary64 (adaptability bc) 620)"
    and Y: "y (baryToCartesian binary64 canvas_triangle bc) =
      fadd binary64 (fadd binary64 (fmul binary64 (performance bc) 80)
        (fmul binary64 (velocity bc) 470)) (fmul binary64 (adaptability bc) 470)"
    by (simp_all add: baryToCartesian_def canvas_triangle_def)
  note wx = weighted_sum_within [OF bc, of 350 80 620, simplified]
  note wy = weighted_sum_within [OF bc, of 80 470 470, simplified]
  show "350 * performance bc + 80 * velocity bc + 620 * adaptability bc - 4096 * eps64
      \<le> x (baryToCartesian binary64 canvas_triangle bc)"
    unfolding X using wx by linarith
  show "x (baryToCartesian binary64 canvas_triangle bc)
      \<le> 350 * performance bc + 80 * velocity bc + 620 * adaptability bc + 4096 * eps64"
    unfolding X using wx by linarith
  show "80 * performance bc + 470 * velocity bc + 470 * adaptability bc - 4096 * eps64
      \<le> y (baryToCartesian binary64 canvas_triangle bc)"
    unfolding Y using wy by linarith
  show "y (baryToCartesian binary64 canvas_triangle bc)
      \<le> 80 * performance bc + 470 * velocity bc + 470 * adaptability bc + 4096 * eps64"
    unfolding Y using wy by linarith
qed

lemma bary_roundtrip_binary64:
  assumes "unit_bary bc"
    and "performance bc + velocity bc + adaptability bc = 1"
  shows "\<exists>bc'. cartesianToBary binary64 (Triangle_new binary64 CANVAS_WIDTH CANVAS_HEIGHT)
             (baryToCartesian binary64 (Triangle_new binary64 CANVAS_WIDTH CANVAS_HEIGHT) bc) = Some bc' \<and>
           \<bar>performance bc' - performance bc\<bar> \<le> 1 / 10 ^ 13 \<and>
           \<bar>velocity bc' - velocity bc\<bar> \<le> 1 / 10 ^ 13 \<and>
           \<bar>adaptability bc' - adaptability bc\<bar> \<le> 1 / 10 ^ 13"
proof -
  note e = eps64_bounds
  have T: "Triangle_new binary64 CANVAS_WIDTH CANVAS_HEIGHT = canvas_triangle"
    by (rule Triangle_700_550) simp
  have bc: "0 \<le> performance bc" "0 \<le> velocity bc" "0 \<le> adaptability bc"
      "performance bc + velocity bc + adaptability bc = 1"
    using assms by (simp_all add: unit_bary_def)
  let ?P = "baryToCartesian binary64 canvas_triangle bc"
  from clamp_near [OF bc marker_within [OF bc]] obtain q where
    q: "clampToTriangle binary64 canvas_triangle ?P = Some q"
    and n: "350 * performance bc + 80 * velocity bc + 620 * adaptability bc - 18 / 1000000000000 \<le> x q"
      "x q \<le> 350 * performance bc + 80 * velocity bc + 620 * adaptability bc + 18 / 1000000000000"
      "80 * performance bc + 470 * velocity bc + 470 * adaptability bc - 18 / 1000000000000 \<le> y q"
      "y q \<le> 80 * performance bc + 470 * velocity bc + 470 * adaptability bc + 18 / 1000000000000"
    by blast
  have k: "0 \<le> (18 / 1000000000000 :: real)" "(18 / 1000000000000 :: real) \<le> 1 / 10000"
    by simp_all
  note w = weights_near [OF bc n k]
  have tol: "18 / 1000000000000 / 195 + 22 * eps64 \<le> 1 / 10000000000000"
    using e by linarith
  define wp where "wp = std_max 0 (std_min 1 (binary64
      (signedArea binary64 q (left canvas_triangle) (right canvas_triangle) / - 210600)))"
  define wv where "wv = std_max 0 (std_min 1 (binary64
      (signedArea binary64 q (right canvas_triangle) (top' canvas_triangle) / - 210600)))"
  define wa where "wa = std_max 0 (std_min 1 (binary64
      (signedArea binary64 q (top' canvas_triangle) (left canvas_triangle) / - 210600)))"
  have "- (1 / 10000000000000) \<le> wp - performance bc" "wp - performance bc \<le> 1 / 10000000000000"
    "- (1 / 10000000000000) \<le> wv - velocity bc" "wv - velocity bc \<le> 1 / 10000000000000"
    "- (1 / 10000000000000) \<le> wa - adaptability bc" "wa - adaptability bc \<le> 1 / 10000000000000"
    using w tol unfolding wp_def wv_def wa_def by linarith+
  then have "\<bar>wp - performance bc\<bar> \<le> 1 / 10000000000000"
    "\<bar>wv - velocity bc\<bar> \<le> 1 / 10000000000000"
    "\<bar>wa - adaptability bc\<bar> \<le> 1 / 10000000000000"
    by (intro abs_leI; linarith)+
  moreover have "(1 / 10000000000000 :: real) = 1 / 10 ^ 13" by simp
  ultimately have "\<bar>wp - performance bc\<bar> \<le> 1 / 10 ^ 13" "\<bar>wv - velocity bc\<bar> \<le> 1 / 10 ^ 13"
    "\<bar>wa - adaptability bc\<bar> \<le> 1 / 10 ^ 13"
    by (simp_all only:)
  moreover have "cartesianToBary binary64 canvas_triangle ?P =
      Some \<lparr> performance = wp, velocity = wv, adaptability = wa \<rparr>"
    unfolding wp_def wv_def wa_def by (rule cartesianToBary_canvas [OF q])
  ultimately show ?thesis
    unfolding T by (intro exI [of _ "\<lparr> performance = wp, velocity = wv, adaptability = wa \<rparr>"]) simp
qed

section \<open>The claims\<close>

subsection \<open>Conversions\<close>

text \<open>
  C1. For every barycentric triple \<open>bc\<close> whose three components each lie in \<open>[0, 1]\<close>
  and sum to 1, \<^verbatim>\<open>cartesianToBary(baryToCartesian(bc))\<close> on the triangle of the canvas
  700 by 550 with padding 80 returns \<open>bc\<close> again: exactly so in exact arithmetic, and in
  double arithmetic with each component within \<open>10 ^ -13\<close> of the one of \<open>bc\<close>.
\<close>

theorem bary_roundtrip:
  assumes "unit_bary bc"
    and "performance bc + velocity bc + adaptability bc = 1"
  shows "cartesianToBary exact (Triangle_new exact CANVAS_WIDTH CANVAS_HEIGHT)
           (baryToCartesian exact (Triangle_new exact CANVAS_WIDTH CANVAS_HEIGHT) bc) = Some bc \<and>
    (\<exists>bc'. cartesianToBary binary64 (Triangle_new binary64 CANVAS_WIDTH CANVAS_HEIGHT)
             (baryToCartesian binary64 (Triangle_new binary64 CANVAS_WIDTH CANVAS_HEIGHT) bc) = Some bc' \<and>
           \<bar>performance bc' - performance bc\<bar> \<le> 1 / 10 ^ 13 \<and>
           \<bar>velocity bc' - velocity bc\<bar> \<le> 1 / 10 ^ 13 \<and>
           \<bar>adaptability bc' - adaptability bc\<bar> \<le> 1 / 10 ^ 13)"
  using bary_roundtrip_exact [OF assms] bary_roundtrip_binary64 [OF assms] by blast

text \<open>
  The round trip at the weights (1/4, 1/4, 1/2).
\<close>

theorem bary_roundtrip_witness:
  "unit_bary \<lparr> performance = 1 / 4, velocity = 1 / 4, adaptability = 1 / 2 \<rparr> \<and>
   cartesianToBary exact (Triangle_new exact CANVAS_WIDTH CANVAS_HEIGHT)
     (baryToCartesian exact (Triangle_new exact CANVAS_WIDTH CANVAS_HEIGHT)
        \<lparr> performance = 1 / 4, velocity = 1 / 4, adaptability = 1 / 2 \<rparr>) =
     Some \<lparr> performance = 1 / 4, velocity = 1 / 4, adaptability = 1 / 2 \<rparr> \<and>
   (\<exists>bc'. cartesianToBary binary64 (Triangle_new binary64 CANVAS_WIDTH CANVAS_HEIGHT)
       (baryToCartesian binary64 (Triangle_new binary64 CANVAS_WIDTH CANVAS_HEIGHT)
          \<lparr> performance = 1 / 4, velocity = 1 / 4, adaptability = 1 / 2 \<rparr>) = Some bc' \<and>
     \<bar>performance bc' - 1 / 4\<bar> \<le> 1 / 10 ^ 13 \<and>
     \<bar>velocity bc' - 1 / 4\<bar> \<le> 1 / 10 ^ 13 \<and>
     \<bar>adaptability bc' - 1 / 2\<bar> \<le> 1 / 10 ^ 13)"
proof -
  let ?bc = "\<lparr> performance = 1 / 4, velocity = 1 / 4, adaptability = 1 / 2 :: real \<rparr>"
  have u: "unit_bary ?bc" by (simp add: unit_bary_def)
  have s: "performance ?bc + velocity ?bc + adaptability ?bc = 1" by simp
  from bary_roundtrip [OF u s] u show ?thesis by simp
qed

subsection \<open>clampToTriangle\<close>



text \<open>
  C3, as the specification states it, fails in double arithmetic. On the triangle that
  \<^verbatim>\<open>init\<close> constructs, the point (100, 100) is outside; \<^verbatim>\<open>clampToTriangle\<close>
  returns the rounded projection onto the edge top-left, about (259.64, 210.52); this
  point is on none of the three edges, and \<^verbatim>\<open>isInside\<close> of it is false: its signed
  area with top-left is \<open>2 ^ -36\<close>, positive, while the other two are negative.
\<close>

theorem clampToTriangle_off_edge_binary64:
  "\<not> isInside binary64 (Triangle_new binary64 CANVAS_WIDTH CANVAS_HEIGHT) \<lparr> x = 100, y = 100 \<rparr> \<and>
   clampToTriangle binary64 (Triangle_new binary64 CANVAS_WIDTH CANVAS_HEIGHT) \<lparr> x = 100, y = 100 \<rparr> =
     Some \<lparr> x = 2283817592286085 / 8796093022208, y = 7407014012140913 / 35184372088832 \<rparr> \<and>
   \<not> isInside binary64 (Triangle_new binary64 CANVAS_WIDTH CANVAS_HEIGHT)
     \<lparr> x = 2283817592286085 / 8796093022208, y = 7407014012140913 / 35184372088832 \<rparr> \<and>
   \<not> on_segment (top' (Triangle_new binary64 CANVAS_WIDTH CANVAS_HEIGHT))
     (left (Triangle_new binary64 CANVAS_WIDTH CANVAS_HEIGHT))
     \<lparr> x = 2283817592286085 / 8796093022208, y = 7407014012140913 / 35184372088832 \<rparr> \<and>
   \<not> on_segment (left (Triangle_new binary64 CANVAS_WIDTH CANVAS_HEIGHT))
     (right (Triangle_new binary64 CANVAS_WIDTH CANVAS_HEIGHT))
     \<lparr> x = 2283817592286085 / 8796093022208, y = 7407014012140913 / 35184372088832 \<rparr> \<and>
   \<not> on_segment (right (Triangle_new binary64 CANVAS_WIDTH CANVAS_HEIGHT))
     (top' (Triangle_new binary64 CANVAS_WIDTH CANVAS_HEIGHT))
     \<lparr> x = 2283817592286085 / 8796093022208, y = 7407014012140913 / 35184372088832 \<rparr>"
proof -
  have T: "Triangle_new binary64 CANVAS_WIDTH CANVAS_HEIGHT = canvas_triangle"
    by (rule Triangle_700_550) simp
  have inside: "\<not> isInside binary64 canvas_triangle
     \<lparr> x = 2283817592286085 / 8796093022208, y = 7407014012140913 / 35184372088832 \<rparr>"
    by (simp add: isInside_def Let_def clamped_100_areas)
  have off: "\<not> on_segment (top' canvas_triangle) (left canvas_triangle)
       \<lparr> x = 2283817592286085 / 8796093022208, y = 7407014012140913 / 35184372088832 \<rparr>"
    "\<not> on_segment (left canvas_triangle) (right canvas_triangle)
       \<lparr> x = 2283817592286085 / 8796093022208, y = 7407014012140913 / 35184372088832 \<rparr>"
    "\<not> on_segment (right canvas_triangle) (top' canvas_triangle)
       \<lparr> x = 2283817592286085 / 8796093022208, y = 7407014012140913 / 35184372088832 \<rparr>"
    by code_simp+
  show ?thesis
    unfolding T using outside_100(1) clamp_100_binary64 inside off by simp
qed

text \<open>
  C3, amended. In exact arithmetic, for every triangle and every point \<open>p\<close> with
  \<^verbatim>\<open>isInside(p)\<close> false, \<^verbatim>\<open>clampToTriangle(p)\<close> lies on one of the three edges
  (the segments top-left, left-right, right-top) and \<^verbatim>\<open>isInside\<close> of it is true.
\<close>

theorem clampToTriangle_on_edge_exact:
  "\<not> isInside exact T p \<Longrightarrow>
     \<exists>q. clampToTriangle exact T p = Some q \<and>
       (on_segment (top' T) (left T) q \<or> on_segment (left T) (right T) q \<or>
        on_segment (right T) (top' T) q) \<and>
       isInside exact T q"
proof -
  assume out: "\<not> isInside exact T p"
  note eps = rounding_cases(1) [of exact, simplified]
  obtain q1 where q1: "projectPointOntoSegment exact p (top' T) (left T) = Some q1"
    using projectPointOntoSegment_total [OF eps] by blast
  obtain q2 where q2: "projectPointOntoSegment exact p (left T) (right T) = Some q2"
    using projectPointOntoSegment_total [OF eps] by blast
  obtain q3 where q3: "projectPointOntoSegment exact p (right T) (top' T) = Some q3"
    using projectPointOntoSegment_total [OF eps] by blast
  from projectPointOntoSegment_between [OF q1] obtain t1 where
    t1: "0 \<le> t1" "t1 \<le> 1" "q1 = between (top' T) (left T) t1" by blast
  from projectPointOntoSegment_between [OF q2] obtain t2 where
    t2: "0 \<le> t2" "t2 \<le> 1" "q2 = between (left T) (right T) t2" by blast
  from projectPointOntoSegment_between [OF q3] obtain t3 where
    t3: "0 \<le> t3" "t3 \<le> 1" "q3 = between (right T) (top' T) t3" by blast
  have e1: "on_segment (top' T) (left T) q1" "isInside exact T q1"
    using t1 by (simp_all add: between_on_segment between_inside)
  have e2: "on_segment (left T) (right T) q2" "isInside exact T q2"
    using t2 by (simp_all add: between_on_segment between_inside)
  have e3: "on_segment (right T) (top' T) q3" "isInside exact T q3"
    using t3 by (simp_all add: between_on_segment between_inside)
  show ?thesis
    unfolding clampToTriangle_outside [OF out q1 q2 q3]
    using e1 e2 e3 by simp
qed

text \<open>
  The point (100, 100) again, in exact arithmetic: it goes to (259.64, 210.52), on the
  edge top-left.
\<close>

theorem clampToTriangle_on_edge_exact_witness:
  "\<not> isInside exact canvas_triangle \<lparr> x = 100, y = 100 \<rparr> \<and>
   clampToTriangle exact canvas_triangle \<lparr> x = 100, y = 100 \<rparr> =
     Some \<lparr> x = 6491 / 25, y = 5263 / 25 \<rparr> \<and>
   on_segment (top' canvas_triangle) (left canvas_triangle) \<lparr> x = 6491 / 25, y = 5263 / 25 \<rparr> \<and>
   isInside exact canvas_triangle \<lparr> x = 6491 / 25, y = 5263 / 25 \<rparr>"
proof -
  have seg: "on_segment (top' canvas_triangle) (left canvas_triangle)
      \<lparr> x = 6491 / 25, y = 5263 / 25 \<rparr>"
    by code_simp
  from clampToTriangle_on_edge_exact [OF outside_100(2)] outside_100(2) clamp_100_exact seg
  show ?thesis by simp
qed

subsection \<open>cartesianToBary\<close>

text \<open>
  C4. For every point and every three vertices, a degenerate triangle included,
  \<^verbatim>\<open>cartesianToBary\<close> divides by zero nowhere (it returns a value, neither its own three
  divisions nor the division of a projection having a zero divisor) and each component of
  its result lies in \<open>[0, 1]\<close>. A projection divides by zero nowhere either, and onto a
  segment whose squared length is below 0.001 it is the start of the segment; when the
  absolute value of the total signed area is below 0.001, the three signed areas are
  divided by 1. It holds in exact and in double arithmetic.
\<close>

theorem cartesianToBary_total:
  assumes "rnd = exact \<or> rnd = binary64"
  shows "(\<exists>bc. cartesianToBary rnd T p = Some bc \<and> unit_bary bc) \<and>
    (\<exists>q. projectPointOntoSegment rnd p a b = Some q) \<and>
    (distSq rnd a b < rnd 0.001 \<longrightarrow> projectPointOntoSegment rnd p a b = Some a) \<and>
    (\<bar>signedArea rnd (top' T) (left T) (right T)\<bar> < rnd 0.001 \<and>
     clampToTriangle rnd T p = Some clamped \<longrightarrow>
       cartesianToBary rnd T p =
         Some \<lparr> performance = std_max 0 (std_min 1 (rnd (signedArea rnd clamped (left T) (right T) / 1))),
                velocity = std_max 0 (std_min 1 (rnd (signedArea rnd clamped (right T) (top' T) / 1))),
                adaptability = std_max 0 (std_min 1 (rnd (signedArea rnd clamped (top' T) (left T) / 1))) \<rparr>)"
proof -
  note eps = rounding_cases(1) [OF assms]
  have "distSq rnd a b < rnd 0.001 \<longrightarrow> projectPointOntoSegment rnd p a b = Some a"
    by (simp add: projectPointOntoSegment_def distSq_def Let_def)
  moreover have "\<bar>signedArea rnd (top' T) (left T) (right T)\<bar> < rnd 0.001 \<and>
     clampToTriangle rnd T p = Some clamped \<longrightarrow>
       cartesianToBary rnd T p =
         Some \<lparr> performance = std_max 0 (std_min 1 (rnd (signedArea rnd clamped (left T) (right T) / 1))),
                velocity = std_max 0 (std_min 1 (rnd (signedArea rnd clamped (right T) (top' T) / 1))),
                adaptability = std_max 0 (std_min 1 (rnd (signedArea rnd clamped (top' T) (left T) / 1))) \<rparr>"
    by (simp add: cartesianToBary_def Let_def fdiv_def)
  ultimately show ?thesis
    using cartesianToBary_unit [OF eps, of T p] projectPointOntoSegment_total [OF eps, of p a b]
    by blast
qed

text \<open>
  Three collinear vertices, of signed area 0, in double arithmetic.
\<close>

theorem cartesianToBary_total_witness:
  "\<bar>signedArea binary64 \<lparr> x = 0, y = 0 \<rparr> \<lparr> x = 1, y = 0 \<rparr> \<lparr> x = 2, y = 0 \<rparr>\<bar> < binary64 0.001 \<and>
   (\<exists>bc. cartesianToBary binary64
            \<lparr> top' = \<lparr> x = 0, y = 0 \<rparr>, left = \<lparr> x = 1, y = 0 \<rparr>, right = \<lparr> x = 2, y = 0 \<rparr> \<rparr>
            \<lparr> x = 1, y = 1 \<rparr> = Some bc \<and> unit_bary bc) \<and>
   distSq binary64 \<lparr> x = 2, y = 0 \<rparr> \<lparr> x = 2, y = 0 \<rparr> < binary64 0.001 \<and>
   projectPointOntoSegment binary64 \<lparr> x = 1, y = 1 \<rparr> \<lparr> x = 2, y = 0 \<rparr> \<lparr> x = 2, y = 0 \<rparr> =
     Some \<lparr> x = 2, y = 0 \<rparr>"
proof -
  have r: "binary64 = exact \<or> binary64 = binary64" by simp
  have d: "\<bar>signedArea binary64 \<lparr> x = 0, y = 0 \<rparr> \<lparr> x = 1, y = 0 \<rparr> \<lparr> x = 2, y = 0 \<rparr>\<bar>
      < binary64 0.001"
    by code_simp
  have l: "distSq binary64 \<lparr> x = 2, y = 0 \<rparr> \<lparr> x = 2, y = 0 \<rparr> < binary64 0.001"
    by code_simp
  from cartesianToBary_total [OF r, of
      "\<lparr> top' = \<lparr> x = 0, y = 0 \<rparr>, left = \<lparr> x = 1, y = 0 \<rparr>, right = \<lparr> x = 2, y = 0 \<rparr> \<rparr>"
      "\<lparr> x = 1, y = 1 \<rparr>" "\<lparr> x = 2, y = 0 \<rparr>" "\<lparr> x = 2, y = 0 \<rparr>"] d l
  show ?thesis by blast
qed

subsection \<open>pointerDown\<close>



subsection \<open>isInside\<close>

text \<open>
  C6, as the specification states it, fails in double arithmetic. On the triangle of a
  canvas of 200 by 300, with the vertices (100, 80), (80, 220) and (120, 220), the point
  below has two doubles as coordinates and lies on the edge top-left, exactly; in exact
  arithmetic \<^verbatim>\<open>isInside\<close> of it is true. In double arithmetic its signed area with
  top-left is rounded to a positive number (the difference of its ordinate and 220 is not
  a double), the one with left-right is negative, and \<^verbatim>\<open>isInside\<close> is false.
\<close>

theorem isInside_boundary_binary64_fails:
  "binary64 (6944881397753497 / 70368744177664) = 6944881397753497 / 70368744177664 \<and>
   binary64 (6273450674303441 / 70368744177664) = 6273450674303441 / 70368744177664 \<and>
   on_segment (top' (Triangle_new binary64 200 300)) (left (Triangle_new binary64 200 300))
     \<lparr> x = 6944881397753497 / 70368744177664, y = 6273450674303441 / 70368744177664 \<rparr> \<and>
   on_boundary (Triangle_new binary64 200 300)
     \<lparr> x = 6944881397753497 / 70368744177664, y = 6273450674303441 / 70368744177664 \<rparr> \<and>
   isInside exact (Triangle_new binary64 200 300)
     \<lparr> x = 6944881397753497 / 70368744177664, y = 6273450674303441 / 70368744177664 \<rparr> \<and>
   signedArea binary64
     \<lparr> x = 6944881397753497 / 70368744177664, y = 6273450674303441 / 70368744177664 \<rparr>
     (top' (Triangle_new binary64 200 300)) (left (Triangle_new binary64 200 300)) > 0 \<and>
   signedArea binary64
     \<lparr> x = 6944881397753497 / 70368744177664, y = 6273450674303441 / 70368744177664 \<rparr>
     (left (Triangle_new binary64 200 300)) (right (Triangle_new binary64 200 300)) < 0 \<and>
   \<not> isInside binary64 (Triangle_new binary64 200 300)
     \<lparr> x = 6944881397753497 / 70368744177664, y = 6273450674303441 / 70368744177664 \<rparr>"
  unfolding Triangle_200_300 by code_simp

text \<open>
  C6, amended. A point is classified outside only when the three signed areas, as
  computed, contain both a negative and a positive value. So, for either winding direction
  of the vertices: in exact arithmetic every point of the boundary is inside; and the
  three vertices are inside in exact and in double arithmetic.
\<close>

theorem isInside_boundary:
  "(isInside rnd T q \<longleftrightarrow>
      \<not> ((signedArea rnd q (top' T) (left T) < 0 \<or> signedArea rnd q (left T) (right T) < 0 \<or>
           signedArea rnd q (right T) (top' T) < 0) \<and>
          (signedArea rnd q (top' T) (left T) > 0 \<or> signedArea rnd q (left T) (right T) > 0 \<or>
           signedArea rnd q (right T) (top' T) > 0))) \<and>
   (on_boundary T q \<longrightarrow> isInside exact T q) \<and>
   (rnd = exact \<or> rnd = binary64 \<longrightarrow>
      isInside rnd T (top' T) \<and> isInside rnd T (left T) \<and> isInside rnd T (right T))"
proof -
  have mixed: "isInside rnd T q \<longleftrightarrow>
      \<not> ((signedArea rnd q (top' T) (left T) < 0 \<or> signedArea rnd q (left T) (right T) < 0 \<or>
           signedArea rnd q (right T) (top' T) < 0) \<and>
          (signedArea rnd q (top' T) (left T) > 0 \<or> signedArea rnd q (left T) (right T) > 0 \<or>
           signedArea rnd q (right T) (top' T) > 0))"
    unfolding isInside_def Let_def ..
  show ?thesis
    using mixed vertices_inside [of rnd T] rounding_cases(2) [of rnd] on_boundary_inside [of T q]
    by blast
qed

text \<open>
  The midpoint (215, 275) of the edge top-left of the canvas triangle, and its three
  vertices.
\<close>

theorem isInside_boundary_witness:
  "on_boundary canvas_triangle \<lparr> x = 215, y = 275 \<rparr> \<and>
   isInside exact canvas_triangle \<lparr> x = 215, y = 275 \<rparr> \<and>
   isInside binary64 canvas_triangle (top' canvas_triangle) \<and>
   isInside binary64 canvas_triangle (left canvas_triangle) \<and>
   isInside binary64 canvas_triangle (right canvas_triangle)"
proof -
  have b: "on_boundary canvas_triangle \<lparr> x = 215, y = 275 \<rparr>"
    by code_simp
  from isInside_boundary [of binary64 canvas_triangle "\<lparr> x = 215, y = 275 \<rparr>"] b
  show ?thesis by simp
qed

subsection \<open>The marker stays in the unit cube\<close>

text \<open>
  C7. After every sequence of calls of \<^verbatim>\<open>init\<close>, \<^verbatim>\<open>cleanup\<close>,
  \<^verbatim>\<open>handleMouseDown\<close>, \<^verbatim>\<open>handleMouseMove\<close> and \<^verbatim>\<open>handleMouseUp\<close> from the
  initial state, no call has divided by zero and each of the three components of the
  marker lies in \<open>[0, 1]\<close>. It holds in exact and in double arithmetic.
\<close>

theorem marker_in_unit_interval:
  assumes "rnd = exact \<or> rnd = binary64"
  shows "\<exists>s'. run rnd (initial_state rnd) cs = Some s' \<and> unit_bary (dotPosition s')"
proof (rule run_inv)
  show "epsilon_positive rnd" by (rule rounding_cases(1) [OF assms])
  show "unit_bary (dotPosition (initial_state rnd))"
    using rounding_cases(3,4) [OF assms] by (simp add: initial_state_def unit_bary_def)
qed

text \<open>
  One such sequence in double arithmetic.
\<close>

theorem marker_in_unit_interval_witness:
  "\<exists>s'. run binary64 (initial_state binary64)
          [Init, MouseDown 350 80, MouseMove 100 100, MouseUp, Cleanup] = Some s' \<and>
        unit_bary (dotPosition s')"
proof -
  have r: "binary64 = exact \<or> binary64 = binary64" by simp
  from marker_in_unit_interval [OF r] show ?thesis .
qed

subsection \<open>The getters without a geometry instance\<close>

text \<open>
  C8, as the specification states it, fails: without a geometry instance the three
  weight getters do not return 0. In the initial state they return 0.33, 0.33 and 0.34
  (in double arithmetic the nearest doubles).
\<close>

theorem weight_getters_not_zero:
  "triangle (initial_state binary64) = None \<and>
   getPerformance (initial_state binary64) \<noteq> 0 \<and>
   getVelocity (initial_state binary64) \<noteq> 0 \<and>
   getAdaptability (initial_state binary64) \<noteq> 0 \<and>
   triangle (initial_state exact) = None \<and>
   getPerformance (initial_state exact) = 0.33 \<and>
   getVelocity (initial_state exact) = 0.33 \<and>
   getAdaptability (initial_state exact) = 0.34"
  by (simp add: initial_state_def getPerformance_def getVelocity_def getAdaptability_def
      binary64_marker exact_def)

text \<open>
  C8, amended. Without a geometry instance, \<^verbatim>\<open>getDotX\<close>, \<^verbatim>\<open>getDotY\<close> and the six
  vertex getters return 0; the three weight getters do not look at the geometry instance
  and return the stored components of the marker.
\<close>

theorem getters_uninitialized:
  "triangle s = None \<Longrightarrow>
     getDotX rnd s = 0 \<and> getDotY rnd s = 0 \<and>
     getTriangleTopX s = 0 \<and> getTriangleTopY s = 0 \<and>
     getTriangleLeftX s = 0 \<and> getTriangleLeftY s = 0 \<and>
     getTriangleRightX s = 0 \<and> getTriangleRightY s = 0 \<and>
     getPerformance s = performance (dotPosition s) \<and>
     getVelocity s = velocity (dotPosition s) \<and>
     getAdaptability s = adaptability (dotPosition s)"
  by (simp add: getDotX_def getDotY_def getTriangleTopX_def getTriangleTopY_def
      getTriangleLeftX_def getTriangleLeftY_def getTriangleRightX_def getTriangleRightY_def
      getPerformance_def getVelocity_def getAdaptability_def)

text \<open>
  The getters in the initial state.
\<close>

theorem getters_uninitialized_witness:
  "triangle (initial_state binary64) = None \<and>
   getDotX binary64 (initial_state binary64) = 0 \<and>
   getDotY binary64 (initial_state binary64) = 0 \<and>
   getTriangleTopX (initial_state binary64) = 0 \<and>
   getTriangleRightY (initial_state binary64) = 0 \<and>
   getPerformance (initial_state binary64) = 5944751508129055 / 18014398509481984"
proof -
  have n: "triangle (initial_state binary64) = None" by (simp add: initial_state_def)
  from getters_uninitialized [OF n, of binary64] n show ?thesis
    by (simp add: initial_state_def binary64_marker)
qed

subsection \<open>End to end\<close>

text \<open>
  C9. The canvas triangle has the vertices (350, 80), (80, 470) and (620, 470). From the
  initial state, after \<^verbatim>\<open>init(); handleMouseDown(350, 80); handleMouseUp()\<close> the
  marker is at (350, 80) and the weights are (1, 0, 0), exactly so in exact and in double
  arithmetic.
\<close>

theorem end_to_end:
  assumes "rnd = exact \<or> rnd = binary64"
  shows "\<exists>s'. run rnd (initial_state rnd) [Init, MouseDown 350 80, MouseUp] = Some s' \<and>
     getTriangleTopX s' = 350 \<and> getTriangleTopY s' = 80 \<and>
     getTriangleLeftX s' = 80 \<and> getTriangleLeftY s' = 470 \<and>
     getTriangleRightX s' = 620 \<and> getTriangleRightY s' = 470 \<and>
     getDotX rnd s' = 350 \<and> getDotY rnd s' = 80 \<and>
     getPerformance s' = 1 \<and> getVelocity s' = 0 \<and> getAdaptability s' = 0"
proof -
  have cart: "baryToCartesian rnd canvas_triangle
      \<lparr> performance = 1, velocity = 0, adaptability = 0 \<rparr> = \<lparr> x = 350, y = 80 \<rparr>"
    using assms top_cartesian by blast
  show ?thesis
    by (simp add: down_at_top [OF assms] handleMouseUp_def getDotX_def getDotY_def
      getTriangleTopX_def getTriangleTopY_def getTriangleLeftX_def getTriangleLeftY_def
      getTriangleRightX_def getTriangleRightY_def getPerformance_def getVelocity_def
      getAdaptability_def cart) (simp add: canvas_triangle_def)
qed

text \<open>
  The run in double arithmetic.
\<close>

theorem end_to_end_witness:
  "\<exists>s'. run binary64 (initial_state binary64) [Init, MouseDown 350 80, MouseUp] = Some s' \<and>
     getDotX binary64 s' = 350 \<and> getDotY binary64 s' = 80 \<and>
     getPerformance s' = 1 \<and> getVelocity s' = 0 \<and> getAdaptability s' = 0"
proof -
  have r: "binary64 = exact \<or> binary64 = binary64" by simp
  from end_to_end [OF r] show ?thesis by blast
qed

subsection \<open>pointerUp\<close>

text \<open>
  C10. In every state, \<^verbatim>\<open>handleMouseUp\<close> sets the dragging flag to false and changes
  nothing else: the marker's barycentric coordinate and the geometry instance (the pointer
  and so the three vertices behind it) are those of the state before, whether the state
  was dragging, idle or without a geometry instance.
\<close>

theorem handleMouseUp_frame:
  "isDragging (handleMouseUp s) = False \<and>
   dotPosition (handleMouseUp s) = dotPosition s \<and>
   triangle (handleMouseUp s) = triangle s \<and>
   handleMouseUp s = s\<lparr> isDragging := False \<rparr>"
  by (simp add: handleMouseUp_def)

end
